theory Spec2Isabelle
  imports Complex_Main "HOL-Library.Multiset"
begin

section \<open>Data model\<close>

text \<open>
  The photo map keeps two collections, areas and photos, loaded from JSON.  A JavaScript
  number is modelled as a mathematical real; a numeric field that is absent
  (\<^verbatim>\<open>undefined\<close>) or \<^verbatim>\<open>NaN\<close> is \<open>None\<close>.  Both behave alike in
  every operation of the code below: they are falsy, arithmetic with them gives
  \<^verbatim>\<open>NaN\<close>, and every comparison with them is false.  Rounding of IEEE doubles is not
  modelled, nor is a JSON \<^verbatim>\<open>null\<close> in a numeric field.  The boolean \<^verbatim>\<open>is_active\<close> may be absent too, and the code tells absent from
  \<^verbatim>\<open>false\<close> (\<^verbatim>\<open>=== false\<close> against \<^verbatim>\<open>!\<close>), so it is a \<open>bool option\<close>.
  \<^verbatim>\<open>taken_at\<close> stands for the time value of \<^verbatim>\<open>new Date(photo.taken_at)\<close>
  (\<open>None\<close> for an invalid date); \<^verbatim>\<open>is_featured\<close> is only ever tested for
  truthiness.
\<close>

type_synonym jsnum = "real option"

record area =
  area_id :: string
  name :: string
  center_lat :: jsnum
  center_lng :: jsnum
  radius :: jsnum
  is_active :: "bool option"

record photo =
  photo_id :: string
  latitude :: jsnum
  longitude :: jsnum
  taken_at :: "int option"
  is_featured :: bool
  view_count :: "int option"

text \<open>Truthiness of a number (\<^verbatim>\<open>!x\<close> is its negation): zero, NaN and undefined are falsy.\<close>

definition truthy :: "jsnum \<Rightarrow> bool" where
  "truthy x = (case x of None \<Rightarrow> False | Some v \<Rightarrow> v \<noteq> 0)"

text \<open>\<^verbatim>\<open>x <= y\<close> on numbers: false as soon as one side is NaN.\<close>

definition js_le :: "jsnum \<Rightarrow> jsnum \<Rightarrow> bool" where
  "js_le x y = (case x of None \<Rightarrow> False | Some a \<Rightarrow> (case y of None \<Rightarrow> False | Some b \<Rightarrow> a \<le> b))"

text \<open>\<^verbatim>\<open>x + y\<close> on numbers: NaN as soon as one side is NaN.\<close>

definition js_add :: "jsnum \<Rightarrow> jsnum \<Rightarrow> jsnum" where
  "js_add x y = (case x of None \<Rightarrow> None | Some a \<Rightarrow> (case y of None \<Rightarrow> None | Some b \<Rightarrow> Some (a + b)))"

text \<open>\<^verbatim>\<open>Array.prototype.join\<close> on strings.\<close>

fun join :: "string \<Rightarrow> string list \<Rightarrow> string" where
  "join sep [] = []"
| "join sep [x] = x"
| "join sep (x # y # ys) = x @ sep @ join sep (y # ys)"

section \<open>Configuration (APP_CONFIG)\<close>

definition MAX_ZOOM :: real where "MAX_ZOOM = 18"
definition MIN_ZOOM :: real where "MIN_ZOOM = 10"
definition CLUSTER_DISTANCE_KM :: real where "CLUSTER_DISTANCE_KM = 2"
definition CLUSTER_ZOOM_THRESHOLD :: real where "CLUSTER_ZOOM_THRESHOLD = 12"
definition MIN_SIZE :: real where "MIN_SIZE = 20"
definition MAX_SIZE :: real where "MAX_SIZE = 50"
definition SIZE_SCALE_FACTOR :: real where "SIZE_SCALE_FACTOR = 3 / 2"

section \<open>Marker size\<close>

text \<open>\<^verbatim>\<open>Math.round\<close>: the nearest integer, halves rounded up.\<close>

definition Math_round :: "real \<Rightarrow> int" where
  "Math_round x = \<lfloor>x + 1 / 2\<rfloor>"

text \<open>\<^verbatim>\<open>MarkerManager.getResponsiveMarkerSize\<close>: a linear interpolation between the
  configured minimum and maximum size, rounded.\<close>

definition MM_getResponsiveMarkerSize :: "real \<Rightarrow> bool \<Rightarrow> int" where
  "MM_getResponsiveMarkerSize zoom isCluster =
     (let scaleFactor = (zoom - MIN_ZOOM) / (MAX_ZOOM - MIN_ZOOM);
          dynamicSize = MIN_SIZE + (MAX_SIZE - MIN_SIZE) * scaleFactor
      in Math_round (if isCluster then dynamicSize * SIZE_SCALE_FACTOR else dynamicSize))"

text \<open>\<^verbatim>\<open>PhotoMapApp.getResponsiveMarkerSize\<close>: a table of zoom bands.\<close>

definition PMA_getResponsiveMarkerSize :: "real \<Rightarrow> bool \<Rightarrow> int" where
  "PMA_getResponsiveMarkerSize zoom isCluster =
     (if zoom \<le> 10 then (if isCluster then 16 else 12)
      else if zoom \<le> 12 then (if isCluster then 24 else 18)
      else if zoom \<le> 14 then (if isCluster then 36 else 30)
      else if zoom \<le> 16 then (if isCluster then 48 else 42)
      else (if isCluster then 60 else 54))"

section \<open>Representative photo\<close>

text \<open>\<^verbatim>\<open>photo.view_count || 0\<close>.\<close>

definition views :: "photo \<Rightarrow> int" where
  "views p = (case view_count p of None \<Rightarrow> 0 | Some v \<Rightarrow> v)"

text \<open>\<^verbatim>\<open>new Date(a) > new Date(b)\<close>: false when either date is invalid.\<close>

definition date_gt :: "int option \<Rightarrow> int option \<Rightarrow> bool" where
  "date_gt x y = (case x of None \<Rightarrow> False | Some a \<Rightarrow> (case y of None \<Rightarrow> False | Some b \<Rightarrow> a > b))"

text \<open>\<^verbatim>\<open>Array.prototype.reduce\<close> without an initial value, on a non-empty array: the
  first element starts the accumulator.  The code calls it on non-empty arrays only; on
  an empty one JavaScript raises a TypeError, here \<open>None\<close>.\<close>

definition reduce1 :: "('a \<Rightarrow> 'a \<Rightarrow> 'a) \<Rightarrow> 'a list \<Rightarrow> 'a option" where
  "reduce1 f xs = (case xs of [] \<Rightarrow> None | x # rest \<Rightarrow> Some (foldl f x rest))"

definition moreViewed :: "photo \<Rightarrow> photo \<Rightarrow> photo" where
  "moreViewed best photo = (if views photo > views best then photo else best)"

definition moreRecent :: "photo \<Rightarrow> photo \<Rightarrow> photo" where
  "moreRecent newest photo = (if date_gt (taken_at photo) (taken_at newest) then photo else newest)"

text \<open>\<^verbatim>\<open>PhotoMapApp.getRepresentativePhoto\<close>; \<open>None\<close> is \<^verbatim>\<open>null\<close>.\<close>

definition getRepresentativePhoto :: "photo list \<Rightarrow> photo option" where
  "getRepresentativePhoto photos =
     (if length photos = 0 then None
      else let featuredPhotos = filter is_featured photos in
        if length featuredPhotos > 0 then reduce1 moreViewed featuredPhotos
        else (case reduce1 moreViewed photos of
                None \<Rightarrow> None
              | Some popularPhoto \<Rightarrow>
                  let sameViewCountPhotos = filter (\<lambda>photo. views photo = views popularPhoto) photos
                  in reduce1 moreRecent sameViewCountPhotos))"

section \<open>Distance\<close>

text \<open>\<^verbatim>\<open>DataManager.degToRad\<close>.\<close>

definition degToRad :: "real \<Rightarrow> real" where
  "degToRad deg = deg * (pi / 180)"

text \<open>\<^verbatim>\<open>Math.atan2(y, x)\<close> (signed zeros apart).\<close>

definition Math_atan2 :: "real \<Rightarrow> real \<Rightarrow> real" where
  "Math_atan2 y x =
     (if x > 0 then arctan (y / x)
      else if x < 0 then (if y \<ge> 0 then arctan (y / x) + pi else arctan (y / x) - pi)
      else if y > 0 then pi / 2
      else if y < 0 then - (pi / 2)
      else 0)"

text \<open>\<^verbatim>\<open>DataManager.calculateDistance\<close>: the haversine formula, in km.  An absent
  or NaN argument makes the result NaN.\<close>

definition DM_calculateDistance :: "jsnum \<Rightarrow> jsnum \<Rightarrow> jsnum \<Rightarrow> jsnum \<Rightarrow> jsnum" where
  "DM_calculateDistance lat1' lng1' lat2' lng2' =
     (case (lat1', lng1', lat2', lng2') of
        (Some lat1, Some lng1, Some lat2, Some lng2) \<Rightarrow>
          (let R = 6371;
               dLat = degToRad (lat2 - lat1);
               dLng = degToRad (lng2 - lng1);
               a = sin (dLat / 2) * sin (dLat / 2) +
                   cos (degToRad lat1) * cos (degToRad lat2) *
                   sin (dLng / 2) * sin (dLng / 2);
               c = 2 * Math_atan2 (sqrt a) (sqrt (1 - a))
           in Some (R * c))
      | _ \<Rightarrow> None)"

text \<open>\<^verbatim>\<open>PhotoMapApp.calculateDistance\<close>: the same formula with the conversion to
  radians written inline.\<close>

definition PMA_calculateDistance :: "jsnum \<Rightarrow> jsnum \<Rightarrow> jsnum \<Rightarrow> jsnum \<Rightarrow> jsnum" where
  "PMA_calculateDistance lat1' lng1' lat2' lng2' =
     (case (lat1', lng1', lat2', lng2') of
        (Some lat1, Some lng1, Some lat2, Some lng2) \<Rightarrow>
          (let R = 6371;
               dLat = (lat2 - lat1) * pi / 180;
               dLng = (lng2 - lng1) * pi / 180;
               a = sin (dLat / 2) * sin (dLat / 2) +
                   cos (lat1 * pi / 180) * cos (lat2 * pi / 180) *
                   sin (dLng / 2) * sin (dLng / 2);
               c = 2 * Math_atan2 (sqrt a) (sqrt (1 - a))
           in Some (R * c))
      | _ \<Rightarrow> None)"

section \<open>Photos of an area\<close>

text \<open>\<^verbatim>\<open>DataManager.getPhotosInArea\<close>.  The guard tests the coordinates for
  truthiness; a falsy radius is replaced by 1.0 km.\<close>

definition DM_getPhotosInArea :: "photo list \<Rightarrow> area \<Rightarrow> photo list" where
  "DM_getPhotosInArea photos area =
     (if \<not> truthy (center_lat area) \<or> \<not> truthy (center_lng area) then []
      else filter (\<lambda>photo.
             let distance = DM_calculateDistance (latitude photo) (longitude photo)
                              (center_lat area) (center_lng area)
             in js_le distance (if truthy (radius area) then radius area else Some 1))
           photos)"

text \<open>\<^verbatim>\<open>PhotoMapApp.getPhotosInArea\<close>.  The guard tests the radius as well, and
  photos without coordinates are left out.\<close>

definition PMA_getPhotosInArea :: "photo list \<Rightarrow> area \<Rightarrow> photo list" where
  "PMA_getPhotosInArea photos area =
     (if \<not> truthy (center_lat area) \<or> \<not> truthy (center_lng area) \<or> \<not> truthy (radius area) then []
      else filter (\<lambda>photo.
             if \<not> truthy (latitude photo) \<or> \<not> truthy (longitude photo) then False
             else let distance = PMA_calculateDistance (center_lat area) (center_lng area)
                                   (latitude photo) (longitude photo)
                  in js_le distance (radius area))
           photos)"

section \<open>Clusters and markers\<close>

text \<open>
  The objects handed to the marker code are of two shapes, told apart by
  \<^verbatim>\<open>isCluster\<close>: an area itself, spread into a new object with \<^verbatim>\<open>isCluster: false\<close>
  (and, in \<^verbatim>\<open>PhotoMapApp.createPhotoClusters\<close>, with its \<^verbatim>\<open>photos\<close>), or a group
  object with \<^verbatim>\<open>isCluster: true\<close> and \<^verbatim>\<open>is_active: true\<close>.
\<close>

record clusterData =
  cluster_id :: string
  cluster_name :: string
  cluster_center_lat :: jsnum
  cluster_center_lng :: jsnum
  cluster_areas :: "area list"
  cluster_photos :: "photo list"

datatype cluster = Single area "photo list option" | Multi clusterData

fun isCluster :: "cluster \<Rightarrow> bool" where
  "isCluster (Single a ps) = False"
| "isCluster (Multi g) = True"

fun cluster_lat :: "cluster \<Rightarrow> jsnum" where
  "cluster_lat (Single a ps) = center_lat a"
| "cluster_lat (Multi g) = cluster_center_lat g"

fun cluster_lng :: "cluster \<Rightarrow> jsnum" where
  "cluster_lng (Single a ps) = center_lng a"
| "cluster_lng (Multi g) = cluster_center_lng g"

fun cluster_is_active :: "cluster \<Rightarrow> bool option" where
  "cluster_is_active (Single a ps) = is_active a"
| "cluster_is_active (Multi g) = Some True"

text \<open>The areas a cluster object stands for.\<close>

fun members :: "cluster \<Rightarrow> area list" where
  "members (Single a ps) = [a]"
| "members (Multi g) = cluster_areas g"

text \<open>A marker on the area layer: the object it was created for
  (\<^verbatim>\<open>marker.areaData\<close> in \<^verbatim>\<open>MarkerManager\<close>, \<^verbatim>\<open>marker.clusterData\<close> in
  \<^verbatim>\<open>PhotoMapApp\<close>), the count on its badge and the pixel size of its icon.\<close>

record marker =
  areaData :: cluster
  photoCount :: nat
  iconSize :: int

text \<open>The suffixes of cluster names, as UTF-8 bytes: a space and the katakana word
  for "area"; the same word without the space; the middle dot that joins names.\<close>

definition area_word :: string where
  "area_word = [CHR 0xE3, CHR 0x82, CHR 0xA8, CHR 0xE3, CHR 0x83, CHR 0xAA, CHR 0xE3, CHR 0x82, CHR 0xA2]"

definition middle_dot :: string where
  "middle_dot = [CHR 0xE3, CHR 0x83, CHR 0xBB]"

section \<open>MarkerManager\<close>

definition shouldClusterMarkers :: "real \<Rightarrow> bool" where
  "shouldClusterMarkers zoom = (zoom \<le> CLUSTER_ZOOM_THRESHOLD)"

text \<open>The test of the inner loop of \<^verbatim>\<open>createClusters\<close>.\<close>

definition withinClusterDistance :: "area \<Rightarrow> area \<Rightarrow> bool" where
  "withinClusterDistance area otherArea =
     (let distance = DM_calculateDistance (center_lat area) (center_lng area)
                       (center_lat otherArea) (center_lng otherArea)
      in js_le distance (Some CLUSTER_DISTANCE_KM))"

text \<open>What one pass of the outer loop pushes, from the seed area and
  \<^verbatim>\<open>nearbyAreas\<close> (the seed first).\<close>

definition MM_emit :: "photo list \<Rightarrow> area \<Rightarrow> area list \<Rightarrow> cluster" where
  "MM_emit photos area nearbyAreas =
     (if length nearbyAreas > 1 then
        let centerLat = map_option (\<lambda>s. s / real (length nearbyAreas))
                          (foldl (\<lambda>sum a. js_add sum (center_lat a)) (Some 0) nearbyAreas);
            centerLng = map_option (\<lambda>s. s / real (length nearbyAreas))
                          (foldl (\<lambda>sum a. js_add sum (center_lng a)) (Some 0) nearbyAreas)
        in Multi \<lparr>cluster_id = ''cluster_'' @ join ''_'' (map area_id nearbyAreas),
                  cluster_name = name (nearbyAreas ! 0) @ '' '' @ area_word,
                  cluster_center_lat = centerLat,
                  cluster_center_lng = centerLng,
                  cluster_areas = nearbyAreas,
                  cluster_photos = concat (map (DM_getPhotosInArea photos) nearbyAreas)\<rparr>
      else Single area None)"

text \<open>One pass of the outer \<^verbatim>\<open>forEach\<close> of \<^verbatim>\<open>createClusters\<close>; the state is the
  list of clusters and the set of processed indices.\<close>

definition MM_clusterStep ::
  "photo list \<Rightarrow> area list \<Rightarrow> cluster list \<times> nat set \<Rightarrow> nat \<Rightarrow> cluster list \<times> nat set" where
  "MM_clusterStep photos areas st index =
     (case st of (clusters, processed) \<Rightarrow>
        if index \<in> processed then (clusters, processed)
        else
          let area = areas ! index;
              nearbyIndices = index # filter (\<lambda>otherIndex.
                  otherIndex \<noteq> index \<and> otherIndex \<notin> processed \<and>
                  withinClusterDistance area (areas ! otherIndex)) [0..<length areas];
              nearbyAreas = map (\<lambda>idx. areas ! idx) nearbyIndices
          in (clusters @ [MM_emit photos area nearbyAreas], processed \<union> set nearbyIndices))"

text \<open>\<^verbatim>\<open>MarkerManager.createClusters\<close>; the zoom is read from the map.\<close>

definition MM_createClusters :: "real \<Rightarrow> photo list \<Rightarrow> area list \<Rightarrow> cluster list" where
  "MM_createClusters currentZoom photos areas =
     (if \<not> shouldClusterMarkers currentZoom then map (\<lambda>area. Single area None) areas
      else fst (foldl (MM_clusterStep photos areas) ([], {}) [0..<length areas]))"

text \<open>\<^verbatim>\<open>MarkerManager.createAreaMarker\<close>: \<open>None\<close> when the guard returns early,
  otherwise the marker that is added to the layer.\<close>

definition MM_createAreaMarker :: "real \<Rightarrow> cluster \<Rightarrow> nat \<Rightarrow> marker option" where
  "MM_createAreaMarker currentZoom cluster photoCount' =
     (if \<not> truthy (cluster_lat cluster) \<or> \<not> truthy (cluster_lng cluster) \<or>
         cluster_is_active cluster = Some False then None
      else Some \<lparr>areaData = cluster, photoCount = photoCount',
                  iconSize = MM_getResponsiveMarkerSize currentZoom (isCluster cluster)\<rparr>)"

text \<open>The body of the loop of \<^verbatim>\<open>addAreaMarkers\<close>; the state is the area layer.\<close>

definition MM_addMarker :: "real \<Rightarrow> photo list \<Rightarrow> marker list \<Rightarrow> cluster \<Rightarrow> marker list" where
  "MM_addMarker currentZoom photos areaLayer cluster =
     (let photosInArea = (case cluster of Multi g \<Rightarrow> cluster_photos g
                          | Single a ps \<Rightarrow> DM_getPhotosInArea photos a)
      in if length photosInArea > 0 then
           (case MM_createAreaMarker currentZoom cluster (length photosInArea) of
              None \<Rightarrow> areaLayer
            | Some m \<Rightarrow> areaLayer @ [m])
         else areaLayer)"

text \<open>\<^verbatim>\<open>MarkerManager.addAreaMarkers\<close> on an empty layer: the markers of one render
  pass.\<close>

definition MM_addAreaMarkers :: "real \<Rightarrow> photo list \<Rightarrow> area list \<Rightarrow> marker list" where
  "MM_addAreaMarkers currentZoom photos areas =
     foldl (MM_addMarker currentZoom photos) [] (MM_createClusters currentZoom photos areas)"

section \<open>PhotoMapApp\<close>

definition PMA_shouldClusterMarkers :: "real \<Rightarrow> bool" where
  "PMA_shouldClusterMarkers zoom = (zoom \<le> 12)"

text \<open>The inner \<^verbatim>\<open>forEach\<close> over \<^verbatim>\<open>clusterAreas\<close>: marks the area processed,
  collects its photos and adds its centre to the totals.\<close>

definition PMA_collect ::
  "photo list \<Rightarrow> string set \<times> photo list \<times> jsnum \<times> jsnum \<Rightarrow> area \<Rightarrow>
   string set \<times> photo list \<times> jsnum \<times> jsnum" where
  "PMA_collect photos acc clusterArea =
     (case acc of (processedAreas, allPhotos, totalLat, totalLng) \<Rightarrow>
        (insert (area_id clusterArea) processedAreas,
         allPhotos @ PMA_getPhotosInArea photos clusterArea,
         js_add totalLat (center_lat clusterArea),
         js_add totalLng (center_lng clusterArea)))"

text \<open>The \<^verbatim>\<open>filter\<close> call of \<^verbatim>\<open>createPhotoClusters\<close>: the areas near the seed.
  \<^verbatim>\<open>!otherArea.is_active\<close> holds for \<^verbatim>\<open>false\<close> and for an absent flag.\<close>

definition PMA_nearbyAreas :: "area list \<Rightarrow> string set \<Rightarrow> area \<Rightarrow> area list" where
  "PMA_nearbyAreas areas processedAreas area =
     filter (\<lambda>otherArea.
        if area_id otherArea = area_id area \<or> area_id otherArea \<in> processedAreas \<or>
           is_active otherArea \<noteq> Some True then False
        else let distance = PMA_calculateDistance (center_lat area) (center_lng area)
                              (center_lat otherArea) (center_lng otherArea)
             in js_le distance (Some 2)) areas"

text \<open>One pass of the outer \<^verbatim>\<open>forEach\<close> of \<^verbatim>\<open>createPhotoClusters\<close>; the state is
  the list of clusters and the set of processed ids.\<close>

definition PMA_clusterStep ::
  "photo list \<Rightarrow> area list \<Rightarrow> cluster list \<times> string set \<Rightarrow> area \<Rightarrow> cluster list \<times> string set" where
  "PMA_clusterStep photos areas st area =
     (case st of (clusters, processedAreas) \<Rightarrow>
        if area_id area \<in> processedAreas \<or> is_active area \<noteq> Some True then (clusters, processedAreas)
        else
          let nearbyAreas = PMA_nearbyAreas areas processedAreas area
          in if length nearbyAreas > 0 then
               let clusterAreas = area # nearbyAreas
               in (case foldl (PMA_collect photos) (processedAreas, [], Some 0, Some 0) clusterAreas of
                     (processedAreas', allPhotos, totalLat, totalLng) \<Rightarrow>
                       if length allPhotos > 0 then
                         (clusters @
                            [Multi \<lparr>cluster_id = ''cluster_'' @ area_id area,
                                    cluster_name = join middle_dot (map name clusterAreas) @ area_word,
                                    cluster_center_lat =
                                      map_option (\<lambda>t. t / real (length clusterAreas)) totalLat,
                                    cluster_center_lng =
                                      map_option (\<lambda>t. t / real (length clusterAreas)) totalLng,
                                    cluster_areas = clusterAreas,
                                    cluster_photos = allPhotos\<rparr>],
                          processedAreas')
                       else (clusters, processedAreas'))
             else
               let areaPhotos = PMA_getPhotosInArea photos area
               in if length areaPhotos > 0 then
                    (clusters @ [Single area (Some areaPhotos)], insert (area_id area) processedAreas)
                  else (clusters, processedAreas))"

text \<open>\<^verbatim>\<open>PhotoMapApp.createPhotoClusters\<close>.\<close>

definition PMA_createPhotoClusters :: "photo list \<Rightarrow> area list \<Rightarrow> cluster list" where
  "PMA_createPhotoClusters photos areas =
     fst (foldl (PMA_clusterStep photos areas) ([], {}) areas)"

text \<open>The body of the loop of \<^verbatim>\<open>PhotoMapApp.addAreaMarkers\<close>;
  \<^verbatim>\<open>cluster.photos || this.getPhotosInArea(cluster)\<close> takes the stored photos when
  the object has any (an empty array is truthy).\<close>

definition PMA_addMarker :: "real \<Rightarrow> photo list \<Rightarrow> marker list \<Rightarrow> cluster \<Rightarrow> marker list" where
  "PMA_addMarker currentZoom photos areaLayer cluster =
     (if truthy (cluster_lat cluster) \<and> truthy (cluster_lng cluster) \<and>
         cluster_is_active cluster \<noteq> Some False then
        let clusterPhotos = (case cluster of Multi g \<Rightarrow> cluster_photos g
                             | Single a (Some ps) \<Rightarrow> ps
                             | Single a None \<Rightarrow> PMA_getPhotosInArea photos a);
            photoCount' = length clusterPhotos
        in if photoCount' = 0 then areaLayer
           else areaLayer @ [\<lparr>areaData = cluster, photoCount = photoCount',
                  iconSize = PMA_getResponsiveMarkerSize currentZoom (isCluster cluster)\<rparr>]
      else areaLayer)"

text \<open>\<^verbatim>\<open>PhotoMapApp.addAreaMarkers\<close> on an empty layer.  Above the threshold the
  areas themselves are iterated, with no \<^verbatim>\<open>isCluster\<close> and no \<^verbatim>\<open>photos\<close>.\<close>

definition PMA_addAreaMarkers :: "real \<Rightarrow> photo list \<Rightarrow> area list \<Rightarrow> marker list" where
  "PMA_addAreaMarkers currentZoom photos areas =
     (let clusters = (if PMA_shouldClusterMarkers currentZoom then PMA_createPhotoClusters photos areas
                      else map (\<lambda>area. Single area None) areas)
      in foldl (PMA_addMarker currentZoom photos) [] clusters)"

section \<open>Notions used in the statements and proofs\<close>

text \<open>The \<^verbatim>\<open>id\<close> of a cluster object.\<close>

fun cluster_ident :: "cluster \<Rightarrow> string" where
  "cluster_ident (Single a ps) = area_id a"
| "cluster_ident (Multi g) = cluster_id g"

text \<open>The arithmetic mean, as the specification words the centre of a cluster.\<close>

definition arithmetic_mean :: "real list \<Rightarrow> real" where
  "arithmetic_mean xs = sum_list xs / real (length xs)"

text \<open>The loop of \<^verbatim>\<open>MarkerManager.createClusters\<close> read as a recursion on the list of
  areas still unprocessed: the first one is the seed, the areas near it join its cluster,
  the others are grouped in turn.  It is proved equal to the loop above
  (\<open>MM_createClusters_greedy\<close>).\<close>

fun greedy :: "photo list \<Rightarrow> area list \<Rightarrow> cluster list" where
  "greedy photos [] = []"
| "greedy photos (area # rest) =
     MM_emit photos area (area # filter (withinClusterDistance area) rest) #
     greedy photos (filter (\<lambda>otherArea. \<not> withinClusterDistance area otherArea) rest)"

text \<open>What holds of every group object that \<^verbatim>\<open>MarkerManager.createClusters\<close> pushes.\<close>

definition MM_cluster_ok :: "photo list \<Rightarrow> clusterData \<Rightarrow> bool" where
  "MM_cluster_ok photos g \<longleftrightarrow>
     2 \<le> length (cluster_areas g) \<and>
     (\<exists>lats lngs.
        map center_lat (cluster_areas g) = map Some lats \<and>
        map center_lng (cluster_areas g) = map Some lngs \<and>
        cluster_center_lat g = Some (arithmetic_mean lats) \<and>
        cluster_center_lng g = Some (arithmetic_mean lngs)) \<and>
     cluster_photos g = concat (map (DM_getPhotosInArea photos) (cluster_areas g)) \<and>
     cluster_id g = ''cluster_'' @ join ''_'' (map area_id (cluster_areas g))"

text \<open>The group object that \<^verbatim>\<open>PhotoMapApp.createPhotoClusters\<close> pushes for a seed and
  its neighbours, with the totals of the inner loop written as sums.\<close>

definition PMA_group :: "photo list \<Rightarrow> area \<Rightarrow> area list \<Rightarrow> clusterData" where
  "PMA_group photos area nearbyAreas =
     (let clusterAreas = area # nearbyAreas
      in \<lparr>cluster_id = ''cluster_'' @ area_id area,
          cluster_name = join middle_dot (map name clusterAreas) @ area_word,
          cluster_center_lat = map_option (\<lambda>t. t / real (length clusterAreas))
             (foldl (\<lambda>sum a. js_add sum (center_lat a)) (Some 0) clusterAreas),
          cluster_center_lng = map_option (\<lambda>t. t / real (length clusterAreas))
             (foldl (\<lambda>sum a. js_add sum (center_lng a)) (Some 0) clusterAreas),
          cluster_areas = clusterAreas,
          cluster_photos = concat (map (PMA_getPhotosInArea photos) clusterAreas)\<rparr>)"

text \<open>What holds of every group object that \<^verbatim>\<open>PhotoMapApp.createPhotoClusters\<close>
  pushes.\<close>

definition PMA_cluster_ok :: "photo list \<Rightarrow> clusterData \<Rightarrow> bool" where
  "PMA_cluster_ok photos g \<longleftrightarrow>
     2 \<le> length (cluster_areas g) \<and>
     (\<exists>lats lngs.
        map center_lat (cluster_areas g) = map Some lats \<and>
        map center_lng (cluster_areas g) = map Some lngs \<and>
        cluster_center_lat g = Some (arithmetic_mean lats) \<and>
        cluster_center_lng g = Some (arithmetic_mean lngs)) \<and>
     cluster_photos g = concat (map (PMA_getPhotosInArea photos) (cluster_areas g)) \<and>
     cluster_id g = ''cluster_'' @ area_id (cluster_areas g ! 0)"

section \<open>Test data\<close>

text \<open>The photos of property P6 of the specification: featured flag and view count;
  the other fields are absent.\<close>

definition P6_photos :: "photo list" where
  "P6_photos =
    [\<lparr>photo_id = ''p1'', latitude = None, longitude = None, taken_at = None,
      is_featured = False, view_count = Some 10\<rparr>,
     \<lparr>photo_id = ''p2'', latitude = None, longitude = None, taken_at = None,
      is_featured = True, view_count = Some 1\<rparr>,
     \<lparr>photo_id = ''p3'', latitude = None, longitude = None, taken_at = None,
      is_featured = True, view_count = Some 5\<rparr>]"

text \<open>Areas and a photo near Taishi: \<open>area_a1\<close> and \<open>area_a2\<close> share a centre, where
  \<open>photo_p1\<close> was taken; \<open>area_b\<close> lies 0.01 degrees of latitude (about 1.1 km) to the
  north, with a radius of 0.5 km; \<open>area_nolat\<close> has no latitude, \<open>area_norad\<close> no
  radius, and \<open>area_equator\<close> lies on the equator.\<close>

definition area_a1 :: area where
  "area_a1 = \<lparr>area_id = ''a1'', name = ''A1'', center_lat = Some 34.85, center_lng = Some 134.6,
     radius = Some 0.8, is_active = Some True\<rparr>"
definition area_a2 :: area where
  "area_a2 = \<lparr>area_id = ''a2'', name = ''A2'', center_lat = Some 34.85, center_lng = Some 134.6,
     radius = Some 0.8, is_active = Some True\<rparr>"
definition area_b :: area where
  "area_b = \<lparr>area_id = ''b'', name = ''B'', center_lat = Some 34.86, center_lng = Some 134.6,
     radius = Some 0.5, is_active = Some True\<rparr>"
definition area_nolat :: area where
  "area_nolat = \<lparr>area_id = ''n'', name = ''N'', center_lat = None, center_lng = Some 134.6,
     radius = Some 0.8, is_active = Some True\<rparr>"
definition area_norad :: area where
  "area_norad = \<lparr>area_id = ''r'', name = ''R'', center_lat = Some 34.85, center_lng = Some 134.6,
     radius = None, is_active = Some True\<rparr>"
definition photo_p1 :: photo where
  "photo_p1 = \<lparr>photo_id = ''p1'', latitude = Some 34.85, longitude = Some 134.6, taken_at = None,
     is_featured = False, view_count = None\<rparr>"

definition area_equator :: area where
  "area_equator = \<lparr>area_id = ''e'', name = ''E'', center_lat = Some 0, center_lng = Some 134.6,
     radius = Some 0.8, is_active = Some True\<rparr>"

text \<open>Photos that tie on the view count: two featured ones, and three that are not
  featured, the last without a valid date.\<close>

definition featured_old :: photo where
  "featured_old = \<lparr>photo_id = ''f1'', latitude = None, longitude = None, taken_at = Some 1,
     is_featured = True, view_count = Some 5\<rparr>"
definition featured_new :: photo where
  "featured_new = \<lparr>photo_id = ''f2'', latitude = None, longitude = None, taken_at = Some 2,
     is_featured = True, view_count = Some 5\<rparr>"
definition plain_old :: photo where
  "plain_old = \<lparr>photo_id = ''u1'', latitude = None, longitude = None, taken_at = Some 1,
     is_featured = False, view_count = Some 3\<rparr>"
definition plain_new :: photo where
  "plain_new = \<lparr>photo_id = ''u2'', latitude = None, longitude = None, taken_at = Some 2,
     is_featured = False, view_count = Some 3\<rparr>"
definition plain_undated :: photo where
  "plain_undated = \<lparr>photo_id = ''u3'', latitude = None, longitude = None, taken_at = None,
     is_featured = False, view_count = Some 3\<rparr>"

definition tied_photos :: "photo list" where
  "tied_photos = [plain_old, plain_new, plain_undated]"

text \<open>\<open>area_f\<close> lies 0.01 degrees north of \<open>area_equator\<close>, and \<open>photo_f\<close> was taken at
  its centre.\<close>

definition area_f :: area where
  "area_f = \<lparr>area_id = ''f'', name = ''F'', center_lat = Some 0.01, center_lng = Some 134.6,
     radius = Some 0.5, is_active = Some True\<rparr>"
definition photo_f :: photo where
  "photo_f = \<lparr>photo_id = ''pf'', latitude = Some 0.01, longitude = Some 134.6, taken_at = None,
     is_featured = False, view_count = None\<rparr>"

section \<open>Marker size: properties\<close>

lemma Math_round_mono: "x \<le> y \<Longrightarrow> Math_round x \<le> Math_round y"
  unfolding Math_round_def by (intro floor_mono) simp

lemma MM_size_mono:
  assumes "z1 \<le> z2"
  shows "MM_getResponsiveMarkerSize z1 c \<le> MM_getResponsiveMarkerSize z2 c"
  unfolding MM_getResponsiveMarkerSize_def Let_def
  using assms
  by (auto intro!: Math_round_mono
      simp: MIN_ZOOM_def MAX_ZOOM_def MIN_SIZE_def MAX_SIZE_def SIZE_SCALE_FACTOR_def)

lemma PMA_size_mono:
  assumes "z1 \<le> z2"
  shows "PMA_getResponsiveMarkerSize z1 c \<le> PMA_getResponsiveMarkerSize z2 c"
  using assms unfolding PMA_getResponsiveMarkerSize_def by auto

lemma MM_size_eval:
  "MM_getResponsiveMarkerSize zoom c =
     \<lfloor>(20 + 30 * ((zoom - 10) / 8)) * (if c then 3 / 2 else 1) + 1 / 2\<rfloor>"
  by (simp add: MM_getResponsiveMarkerSize_def Math_round_def MIN_ZOOM_def MAX_ZOOM_def
      MIN_SIZE_def MAX_SIZE_def SIZE_SCALE_FACTOR_def)

text \<open>
  Claim C5, as the code has it.  \<^verbatim>\<open>PhotoMapApp.getResponsiveMarkerSize\<close> is the step
  function of the five zoom bands, with 12/16, 18/24, 30/36, 42/48 and 54/60 pixels for
  area and cluster markers.  \<^verbatim>\<open>MarkerManager.getResponsiveMarkerSize\<close> is not: it
  rounds the linear interpolation 20 + 30 (zoom - 10) / 8, times 1.5 for a cluster.
\<close>

theorem C5_marker_size_bands:
  "(zoom \<le> 10 \<longrightarrow>
      PMA_getResponsiveMarkerSize zoom False = 12 \<and> PMA_getResponsiveMarkerSize zoom True = 16) \<and>
   (10 < zoom \<and> zoom \<le> 12 \<longrightarrow>
      PMA_getResponsiveMarkerSize zoom False = 18 \<and> PMA_getResponsiveMarkerSize zoom True = 24) \<and>
   (12 < zoom \<and> zoom \<le> 14 \<longrightarrow>
      PMA_getResponsiveMarkerSize zoom False = 30 \<and> PMA_getResponsiveMarkerSize zoom True = 36) \<and>
   (14 < zoom \<and> zoom \<le> 16 \<longrightarrow>
      PMA_getResponsiveMarkerSize zoom False = 42 \<and> PMA_getResponsiveMarkerSize zoom True = 48) \<and>
   (16 < zoom \<longrightarrow>
      PMA_getResponsiveMarkerSize zoom False = 54 \<and> PMA_getResponsiveMarkerSize zoom True = 60) \<and>
   MM_getResponsiveMarkerSize zoom c =
      \<lfloor>(20 + 30 * ((zoom - 10) / 8)) * (if c then 3 / 2 else 1) + 1 / 2\<rfloor>"
  by (simp add: PMA_getResponsiveMarkerSize_def MM_size_eval)

theorem C5_marker_size_bands_witness:
  "PMA_getResponsiveMarkerSize 11 False = 18 \<and> PMA_getResponsiveMarkerSize 11 True = 24 \<and>
   MM_getResponsiveMarkerSize 11 True = 36"
  using C5_marker_size_bands [of 11 True] by simp

text \<open>
  Claim C5 as stated fails on \<^verbatim>\<open>MarkerManager.getResponsiveMarkerSize\<close>: at zoom 10
  it gives 20 and 30 pixels, not 12 and 16, and inside the band from 10 to 12 the size
  changes from 24 (zoom 11) to 28 (zoom 12).
\<close>

theorem C5_interpolated_size_counterexample:
  "MM_getResponsiveMarkerSize 10 False = 20 \<and> MM_getResponsiveMarkerSize 10 True = 30 \<and>
   MM_getResponsiveMarkerSize 11 False = 24 \<and> MM_getResponsiveMarkerSize 12 False = 28"
  by (simp add: MM_size_eval)

text \<open>
  Claim C6: both implementations of the marker size are monotonically non-decreasing in
  the zoom level for a fixed cluster flag.  Each is a function of the zoom and the flag
  alone (the configuration is constant), so equal arguments give equal sizes.
\<close>

theorem C6_marker_size_monotone:
  "z1 \<le> z2 \<Longrightarrow>
     PMA_getResponsiveMarkerSize z1 c \<le> PMA_getResponsiveMarkerSize z2 c \<and>
     MM_getResponsiveMarkerSize z1 c \<le> MM_getResponsiveMarkerSize z2 c"
  by (simp add: PMA_size_mono MM_size_mono)

theorem C6_marker_size_monotone_witness:
  "(11::real) \<le> 13 \<and>
   PMA_getResponsiveMarkerSize 11 True \<le> PMA_getResponsiveMarkerSize 13 True \<and>
   MM_getResponsiveMarkerSize 11 True \<le> MM_getResponsiveMarkerSize 13 True"
  using C6_marker_size_monotone [of 11 13 True] by simp

section \<open>Representative photo: properties\<close>

lemma foldl_moreViewed_mem: "foldl moreViewed x xs \<in> set (x # xs)"
  by (induction xs arbitrary: x) (auto simp: moreViewed_def)

lemma foldl_moreViewed_ge_acc: "views x \<le> views (foldl moreViewed x xs)"
proof (induction xs arbitrary: x)
  case Nil
  show ?case by simp
next
  case (Cons y ys)
  have "views x \<le> views (moreViewed x y)" by (simp add: moreViewed_def)
  also have "\<dots> \<le> views (foldl moreViewed (moreViewed x y) ys)" by (rule Cons.IH)
  finally show ?case by simp
qed

lemma foldl_moreViewed_max: "q \<in> set (x # xs) \<Longrightarrow> views q \<le> views (foldl moreViewed x xs)"
proof (induction xs arbitrary: x)
  case Nil
  then show ?case by simp
next
  case (Cons y ys)
  have step: "views x \<le> views (moreViewed x y)" "views y \<le> views (moreViewed x y)"
    by (simp_all add: moreViewed_def)
  from Cons.prems consider "q = x" | "q = y" | "q \<in> set ys" by auto
  then show ?case
  proof cases
    case 1
    with step(1) foldl_moreViewed_ge_acc [of "moreViewed x y" ys] show ?thesis by simp
  next
    case 2
    with step(2) foldl_moreViewed_ge_acc [of "moreViewed x y" ys] show ?thesis by simp
  next
    case 3
    then have "q \<in> set (moreViewed x y # ys)" by simp
    from Cons.IH [OF this] show ?thesis by simp
  qed
qed

lemma foldl_moreRecent_mem: "foldl moreRecent x xs \<in> set (x # xs)"
  by (induction xs arbitrary: x) (auto simp: moreRecent_def)

lemma foldl_moreRecent_invalid: "taken_at x = None \<Longrightarrow> foldl moreRecent x xs = x"
  by (induction xs) (auto simp: moreRecent_def date_gt_def split: option.splits)

lemma foldl_moreViewed_first:
  "\<exists>us vs. x # xs = us @ foldl moreViewed x xs # vs \<and>
     (\<forall>q\<in>set us. views q < views (foldl moreViewed x xs)) \<and>
     (\<forall>q\<in>set vs. views q \<le> views (foldl moreViewed x xs))"
proof (induction xs rule: rev_induct)
  case Nil
  have "[x] = [] @ x # []" by simp
  then show ?case by force
next
  case (snoc y xs)
  let ?r = "foldl moreViewed x xs"
  from snoc obtain us vs where d: "x # xs = us @ ?r # vs"
    and lt: "\<forall>q\<in>set us. views q < views ?r" and le: "\<forall>q\<in>set vs. views q \<le> views ?r"
    by blast
  show ?case
  proof (cases "views y > views ?r")
    case True
    then have r: "foldl moreViewed x (xs @ [y]) = y" by (simp add: moreViewed_def)
    have "x # xs @ [y] = (us @ ?r # vs) @ y # []" using d by simp
    moreover have "\<forall>q\<in>set (us @ ?r # vs). views q < views y" using lt le True by auto
    ultimately show ?thesis unfolding r by (metis empty_iff list.set(1))
  next
    case False
    then have r: "foldl moreViewed x (xs @ [y]) = ?r" by (simp add: moreViewed_def)
    have "x # xs @ [y] = us @ ?r # (vs @ [y])" using d by simp
    moreover have "\<forall>q\<in>set (vs @ [y]). views q \<le> views ?r" using le False by auto
    ultimately show ?thesis unfolding r using lt by blast
  qed
qed

lemma foldl_moreRecent_first:
  "\<exists>us vs. x # xs = us @ foldl moreRecent x xs # vs \<and>
     (taken_at x = None \<longrightarrow> us = []) \<and>
     (\<forall>d0. taken_at x = Some d0 \<longrightarrow>
        (\<exists>d. taken_at (foldl moreRecent x xs) = Some d \<and>
           (\<forall>q\<in>set us. \<forall>e. taken_at q = Some e \<longrightarrow> e < d) \<and>
           (\<forall>q\<in>set vs. \<forall>e. taken_at q = Some e \<longrightarrow> e \<le> d)))"
proof (cases "taken_at x")
  case None
  then have "foldl moreRecent x xs = x" by (rule foldl_moreRecent_invalid)
  with None show ?thesis by simp
next
  case (Some d0)
  have "\<exists>us vs d. x # xs = us @ foldl moreRecent x xs # vs \<and>
           taken_at (foldl moreRecent x xs) = Some d \<and>
           (\<forall>q\<in>set us. \<forall>e. taken_at q = Some e \<longrightarrow> e < d) \<and>
           (\<forall>q\<in>set vs. \<forall>e. taken_at q = Some e \<longrightarrow> e \<le> d)"
  proof (induction xs rule: rev_induct)
    case Nil
    have "[x] = [] @ x # []" by simp
    with Some show ?case by force
  next
    case (snoc y xs)
    let ?r = "foldl moreRecent x xs"
    from snoc obtain us vs d where dec: "x # xs = us @ ?r # vs" and rd: "taken_at ?r = Some d"
      and lt: "\<forall>q\<in>set us. \<forall>e. taken_at q = Some e \<longrightarrow> e < d"
      and le: "\<forall>q\<in>set vs. \<forall>e. taken_at q = Some e \<longrightarrow> e \<le> d"
      by blast
    show ?case
    proof (cases "date_gt (taken_at y) (taken_at ?r)")
      case True
      then obtain e where e: "taken_at y = Some e" "d < e"
        using rd by (auto simp: date_gt_def split: option.splits)
      have r: "foldl moreRecent x (xs @ [y]) = y" using True by (simp add: moreRecent_def)
      have 1: "x # xs @ [y] = (us @ ?r # vs) @ y # []" using dec by simp
      have 2: "\<forall>q\<in>set (us @ ?r # vs). \<forall>e'. taken_at q = Some e' \<longrightarrow> e' < e"
        using lt le rd e(2) by fastforce
      have 3: "\<forall>q\<in>set []. \<forall>e'. taken_at q = Some e' \<longrightarrow> e' \<le> e" by simp
      show ?thesis unfolding r using 1 2 3 e(1) by blast
    next
      case False
      then have r: "foldl moreRecent x (xs @ [y]) = ?r" by (simp add: moreRecent_def)
      from False rd have y: "\<forall>e. taken_at y = Some e \<longrightarrow> e \<le> d"
        by (auto simp: date_gt_def)
      have 1: "x # xs @ [y] = us @ ?r # (vs @ [y])" using dec by simp
      have 2: "\<forall>q\<in>set (vs @ [y]). \<forall>e. taken_at q = Some e \<longrightarrow> e \<le> d" using le y by auto
      show ?thesis unfolding r using 1 2 lt rd by blast
    qed
  qed
  with Some show ?thesis by auto
qed

lemma representative_featured_tie:
  "getRepresentativePhoto [featured_old, featured_new] = Some featured_old"
  by (simp add: getRepresentativePhoto_def reduce1_def moreViewed_def views_def
      featured_old_def featured_new_def)

lemma representative_tied:
  "getRepresentativePhoto tied_photos = Some plain_new"
  by (simp add: tied_photos_def getRepresentativePhoto_def reduce1_def moreViewed_def
      moreRecent_def date_gt_def views_def plain_old_def plain_new_def plain_undated_def)

text \<open>
  Claim C8, as the code has it.  \<^verbatim>\<open>getRepresentativePhoto\<close> returns null for an empty
  list and one of the photos otherwise.  When some photo is featured, it returns the first
  featured photo, in input order, whose view count is the highest among the featured
  ones: every featured photo before it has fewer views, none after it has more, and the
  dates are not consulted.  Otherwise it returns a photo whose view count is the highest
  of all, chosen among the photos with that view count by date: when the first of them
  has no valid date it is returned; when it has one, the photo returned has a valid date,
  every tied photo before it is older or undated, and no tied photo after it is more
  recent.  On the photos of P6 it returns the third one (featured, 5 views).
\<close>

theorem C8_representative_photo:
  "getRepresentativePhoto [] = None \<and>
   (photos \<noteq> [] \<longrightarrow>
     (\<exists>p us vs. getRepresentativePhoto photos = Some p \<and> p \<in> set photos \<and>
       (if \<exists>q\<in>set photos. is_featured q
        then filter is_featured photos = us @ p # vs \<and>
             (\<forall>q\<in>set us. views q < views p) \<and>
             (\<forall>q\<in>set vs. views q \<le> views p)
        else (\<forall>q\<in>set photos. views q \<le> views p) \<and>
             filter (\<lambda>q. views q = views p) photos = us @ p # vs \<and>
             (taken_at (hd (us @ [p])) = None \<longrightarrow> us = []) \<and>
             (\<forall>d0. taken_at (hd (us @ [p])) = Some d0 \<longrightarrow>
                (\<exists>d. taken_at p = Some d \<and>
                   (\<forall>q\<in>set us. \<forall>e. taken_at q = Some e \<longrightarrow> e < d) \<and>
                   (\<forall>q\<in>set vs. \<forall>e. taken_at q = Some e \<longrightarrow> e \<le> d)))))) \<and>
   getRepresentativePhoto P6_photos = Some (P6_photos ! 2)"
proof (intro conjI impI)
  show "getRepresentativePhoto [] = None" by (simp add: getRepresentativePhoto_def)
next
  show "getRepresentativePhoto P6_photos = Some (P6_photos ! 2)"
    by (simp add: P6_photos_def getRepresentativePhoto_def reduce1_def moreViewed_def views_def)
next
  assume ne: "photos \<noteq> []"
  show "\<exists>p us vs. getRepresentativePhoto photos = Some p \<and> p \<in> set photos \<and>
       (if \<exists>q\<in>set photos. is_featured q
        then filter is_featured photos = us @ p # vs \<and>
             (\<forall>q\<in>set us. views q < views p) \<and>
             (\<forall>q\<in>set vs. views q \<le> views p)
        else (\<forall>q\<in>set photos. views q \<le> views p) \<and>
             filter (\<lambda>q. views q = views p) photos = us @ p # vs \<and>
             (taken_at (hd (us @ [p])) = None \<longrightarrow> us = []) \<and>
             (\<forall>d0. taken_at (hd (us @ [p])) = Some d0 \<longrightarrow>
                (\<exists>d. taken_at p = Some d \<and>
                   (\<forall>q\<in>set us. \<forall>e. taken_at q = Some e \<longrightarrow> e < d) \<and>
                   (\<forall>q\<in>set vs. \<forall>e. taken_at q = Some e \<longrightarrow> e \<le> d))))"
  proof (cases "\<exists>q\<in>set photos. is_featured q")
    case True
    then have "filter is_featured photos \<noteq> []" by (simp add: filter_empty_conv)
    then obtain x xs where f: "filter is_featured photos = x # xs"
      by (cases "filter is_featured photos") auto
    let ?p = "foldl moreViewed x xs"
    have res: "getRepresentativePhoto photos = Some ?p"
      using ne f by (simp add: getRepresentativePhoto_def reduce1_def)
    have "?p \<in> set (filter is_featured photos)"
      unfolding f by (rule foldl_moreViewed_mem)
    then have mem: "?p \<in> set photos" by simp
    from foldl_moreViewed_first [of x xs] obtain us vs where
      "x # xs = us @ ?p # vs" "\<forall>q\<in>set us. views q < views ?p" "\<forall>q\<in>set vs. views q \<le> views ?p"
      by blast
    with True res mem f show ?thesis by auto
  next
    case False
    then have nf: "filter is_featured photos = []" by (simp add: filter_empty_conv)
    from ne obtain x xs where ph: "photos = x # xs" by (cases photos) auto
    let ?pop = "foldl moreViewed x xs"
    let ?same = "filter (\<lambda>photo. views photo = views ?pop) photos"
    have "?pop \<in> set photos" unfolding ph by (rule foldl_moreViewed_mem)
    then have "?pop \<in> set ?same" by simp
    then obtain y ys where sm: "?same = y # ys" by (cases ?same) auto
    let ?p = "foldl moreRecent y ys"
    have res: "getRepresentativePhoto photos = Some ?p"
      using ne nf sm unfolding ph by (simp add: getRepresentativePhoto_def reduce1_def Let_def)
    have mem: "?p \<in> set ?same" unfolding sm by (rule foldl_moreRecent_mem)
    then have pin: "?p \<in> set photos" and pv: "views ?p = views ?pop" by simp_all
    have mx: "\<forall>q\<in>set photos. views q \<le> views ?p"
      unfolding pv using foldl_moreViewed_max [of _ x xs] by (simp add: ph)
    from foldl_moreRecent_first [of y ys] obtain us vs where
      all: "y # ys = us @ ?p # vs \<and>
        (taken_at y = None \<longrightarrow> us = []) \<and>
        (\<forall>d0. taken_at y = Some d0 \<longrightarrow>
          (\<exists>d. taken_at ?p = Some d \<and>
             (\<forall>q\<in>set us. \<forall>e. taken_at q = Some e \<longrightarrow> e < d) \<and>
             (\<forall>q\<in>set vs. \<forall>e. taken_at q = Some e \<longrightarrow> e \<le> d)))"
      by (elim exE)
    then have dec: "y # ys = us @ ?p # vs" and
      inv: "taken_at y = None \<longrightarrow> us = []" and
      val: "\<forall>d0. taken_at y = Some d0 \<longrightarrow>
        (\<exists>d. taken_at ?p = Some d \<and>
           (\<forall>q\<in>set us. \<forall>e. taken_at q = Some e \<longrightarrow> e < d) \<and>
           (\<forall>q\<in>set vs. \<forall>e. taken_at q = Some e \<longrightarrow> e \<le> d))"
      by simp_all
    have hd: "hd (us @ [?p]) = y" using dec by (cases us) auto
    have flt: "filter (\<lambda>q. views q = views ?p) photos = us @ ?p # vs"
      unfolding pv sm dec ..
    have "getRepresentativePhoto photos = Some ?p \<and> ?p \<in> set photos \<and>
       (\<forall>q\<in>set photos. views q \<le> views ?p) \<and>
       filter (\<lambda>q. views q = views ?p) photos = us @ ?p # vs \<and>
       (taken_at (hd (us @ [?p])) = None \<longrightarrow> us = []) \<and>
       (\<forall>d0. taken_at (hd (us @ [?p])) = Some d0 \<longrightarrow>
          (\<exists>d. taken_at ?p = Some d \<and>
             (\<forall>q\<in>set us. \<forall>e. taken_at q = Some e \<longrightarrow> e < d) \<and>
             (\<forall>q\<in>set vs. \<forall>e. taken_at q = Some e \<longrightarrow> e \<le> d)))"
      unfolding hd using res pin mx flt inv val by blast
    with False show ?thesis by (intro exI [of _ ?p] exI [of _ us] exI [of _ vs]) simp
  qed
qed

text \<open>Three photos with 3 views each, none featured: the second, the most recent, is
  returned, and no photo with 3 views has a later date.\<close>

theorem C8_representative_photo_witness:
  "tied_photos \<noteq> [] \<and> filter is_featured tied_photos = [] \<and>
   getRepresentativePhoto tied_photos = Some plain_new \<and> taken_at plain_new = Some 2 \<and>
   list_all (\<lambda>q. case taken_at q of None \<Rightarrow> True | Some e \<Rightarrow> e \<le> 2)
     (filter (\<lambda>q. views q = views plain_new) tied_photos)"
proof -
  have ne: "tied_photos \<noteq> []" by (simp add: tied_photos_def)
  have ff: "filter is_featured tied_photos = []"
    by (simp add: tied_photos_def plain_old_def plain_new_def plain_undated_def)
  then have nf: "\<not> (\<exists>q\<in>set tied_photos. is_featured q)" by (simp add: filter_empty_conv)
  have d: "taken_at plain_new = Some 2" by (simp add: plain_new_def)
  have flt: "filter (\<lambda>q. views q = views plain_new) tied_photos = tied_photos"
    by (simp add: tied_photos_def views_def plain_old_def plain_new_def plain_undated_def)
  from C8_representative_photo [of tied_photos] ne nf representative_tied
  obtain us vs where
    dec: "filter (\<lambda>q. views q = views plain_new) tied_photos = us @ plain_new # vs" and
    val: "\<forall>d0. taken_at (hd (us @ [plain_new])) = Some d0 \<longrightarrow>
                (\<exists>d. taken_at plain_new = Some d \<and>
                   (\<forall>q\<in>set us. \<forall>e. taken_at q = Some e \<longrightarrow> e < d) \<and>
                   (\<forall>q\<in>set vs. \<forall>e. taken_at q = Some e \<longrightarrow> e \<le> d))"
    by auto
  have "hd (us @ [plain_new]) = hd (us @ plain_new # vs)" by (cases us) simp_all
  also have "\<dots> = plain_old" unfolding dec [symmetric] flt by (simp add: tied_photos_def)
  finally have "taken_at (hd (us @ [plain_new])) = Some 1" by (simp add: plain_old_def)
  with val d have "(\<forall>q\<in>set us. \<forall>e. taken_at q = Some e \<longrightarrow> e < 2) \<and>
      (\<forall>q\<in>set vs. \<forall>e. taken_at q = Some e \<longrightarrow> e \<le> 2)" by auto
  with d have "\<forall>q\<in>set (us @ plain_new # vs). \<forall>e. taken_at q = Some e \<longrightarrow> e \<le> 2"
    by fastforce
  then have "list_all (\<lambda>q. case taken_at q of None \<Rightarrow> True | Some e \<Rightarrow> e \<le> 2)
     (filter (\<lambda>q. views q = views plain_new) tied_photos)"
    unfolding dec list_all_iff by (auto split: option.splits)
  with ne ff representative_tied d show ?thesis by blast
qed

text \<open>
  Claim C8 as stated fails for featured photos that tie on the view count: both photos
  are featured and have 5 views, the second is the more recent, and the first is
  returned.
\<close>

theorem C8_featured_tie_counterexample:
  "getRepresentativePhoto [featured_old, featured_new] = Some featured_old \<and>
   is_featured featured_old \<and> is_featured featured_new \<and>
   views featured_old = 5 \<and> views featured_new = 5 \<and>
   taken_at featured_old = Some 1 \<and> taken_at featured_new = Some 2"
  using representative_featured_tie
  by (simp add: featured_old_def featured_new_def views_def)

section \<open>The loop of createClusters as a recursion\<close>

lemma MM_nearby_filter:
  assumes k: "k < n" and below: "\<forall>j<k. j \<in> P" and notin: "k \<notin> P"
  shows "filter (\<lambda>j. j \<noteq> k \<and> j \<notin> P \<and> Q j) [0..<n] = filter (\<lambda>j. j \<notin> P \<and> Q j) [Suc k..<n]"
proof -
  have split: "[0..<n] = [0..<Suc k] @ [Suc k..<n]"
    using k by (metis Suc_leI le0 upt_add_eq_append le_add_diff_inverse)
  have first: "filter (\<lambda>j. j \<noteq> k \<and> j \<notin> P \<and> Q j) [0..<Suc k] = []"
    using below by (auto simp: filter_empty_conv less_Suc_eq)
  have second: "filter (\<lambda>j. j \<noteq> k \<and> j \<notin> P \<and> Q j) [Suc k..<n] = filter (\<lambda>j. j \<notin> P \<and> Q j) [Suc k..<n]"
    by (rule filter_cong) auto
  show ?thesis unfolding split filter_append first second by simp
qed

lemma MM_loop:
  assumes "k \<le> length areas" and "\<forall>j<k. j \<in> P"
  shows "fst (foldl (MM_clusterStep photos areas) (cs, P) [k..<length areas]) =
         cs @ greedy photos (map (\<lambda>idx. areas ! idx) (filter (\<lambda>j. j \<notin> P) [k..<length areas]))"
  using assms
proof (induction "length areas - k" arbitrary: k cs P)
  case 0
  then show ?case by simp
next
  case (Suc d)
  let ?n = "length areas"
  from Suc.hyps(2) have k: "k < ?n" by simp
  then have upt: "[k..<?n] = k # [Suc k..<?n]" by (simp add: upt_conv_Cons)
  have d: "d = ?n - Suc k" using Suc.hyps(2) by simp
  have sk: "Suc k \<le> ?n" using k by simp
  show ?case
  proof (cases "k \<in> P")
    case True
    have below: "\<forall>j<Suc k. j \<in> P" using Suc.prems(2) True by (auto simp: less_Suc_eq)
    have step: "MM_clusterStep photos areas (cs, P) k = (cs, P)"
      using True by (simp add: MM_clusterStep_def)
    show ?thesis
      unfolding upt using Suc.hyps(1) [OF d sk below, of cs] True by (simp add: step)
  next
    case False
    let ?a = "areas ! k"
    let ?F = "filter (\<lambda>j. j \<notin> P \<and> withinClusterDistance ?a (areas ! j)) [Suc k..<?n]"
    let ?P' = "P \<union> set (k # ?F)"
    let ?c = "MM_emit photos ?a (map (\<lambda>idx. areas ! idx) (k # ?F))"
    have nb: "filter (\<lambda>otherIndex. otherIndex \<noteq> k \<and> otherIndex \<notin> P \<and>
                  withinClusterDistance ?a (areas ! otherIndex)) [0..<?n] = ?F"
      by (rule MM_nearby_filter [OF k Suc.prems(2) False])
    have step: "MM_clusterStep photos areas (cs, P) k = (cs @ [?c], ?P')"
      apply (simp only: MM_clusterStep_def Let_def prod.case False if_False)
      apply (subst nb)
      apply (subst nb)
      apply simp
      done
    have below: "\<forall>j<Suc k. j \<in> ?P'" using Suc.prems(2) by (auto simp: less_Suc_eq)
    have rest: "filter (\<lambda>j. j \<notin> ?P') [Suc k..<?n] =
                filter (\<lambda>j. \<not> withinClusterDistance ?a (areas ! j)) (filter (\<lambda>j. j \<notin> P) [Suc k..<?n])"
      unfolding filter_filter by (rule filter_cong) auto
    have near: "map (\<lambda>idx. areas ! idx) ?F =
                filter (withinClusterDistance ?a) (map (\<lambda>idx. areas ! idx) (filter (\<lambda>j. j \<notin> P) [Suc k..<?n]))"
      unfolding filter_map filter_filter o_def by (simp add: conj_commute)
    have far: "map (\<lambda>idx. areas ! idx) (filter (\<lambda>j. j \<notin> ?P') [Suc k..<?n]) =
               filter (\<lambda>b. \<not> withinClusterDistance ?a b) (map (\<lambda>idx. areas ! idx) (filter (\<lambda>j. j \<notin> P) [Suc k..<?n]))"
      unfolding rest filter_map o_def ..
    have "fst (foldl (MM_clusterStep photos areas) (cs, P) [k..<?n]) =
          fst (foldl (MM_clusterStep photos areas) (cs @ [?c], ?P') [Suc k..<?n])"
      unfolding upt by (simp add: step)
    also have "\<dots> = (cs @ [?c]) @ greedy photos (map (\<lambda>idx. areas ! idx) (filter (\<lambda>j. j \<notin> ?P') [Suc k..<?n]))"
      by (rule Suc.hyps(1) [OF d sk below])
    also have "\<dots> = cs @ greedy photos (map (\<lambda>idx. areas ! idx) (filter (\<lambda>j. j \<notin> P) [k..<?n]))"
      unfolding upt far using False by (simp add: near)
    finally show ?thesis .
  qed
qed

lemma MM_createClusters_greedy:
  "shouldClusterMarkers zoom \<Longrightarrow> MM_createClusters zoom photos areas = greedy photos areas"
  using MM_loop [of 0 areas "{}" photos "[]"] by (simp add: MM_createClusters_def map_nth)

section \<open>Group objects of MarkerManager\<close>

lemma within_coords:
  "withinClusterDistance a b \<Longrightarrow>
     center_lat a \<noteq> None \<and> center_lng a \<noteq> None \<and> center_lat b \<noteq> None \<and> center_lng b \<noteq> None"
  by (auto simp: withinClusterDistance_def DM_calculateDistance_def js_le_def split: option.splits)

lemma foldl_js_add:
  "map f xs = map Some vs \<Longrightarrow>
     foldl (\<lambda>sum a. js_add sum (f a)) (Some s) xs = Some (s + sum_list vs)"
proof (induction xs arbitrary: vs s)
  case Nil
  then show ?case by simp
next
  case (Cons x xs)
  then obtain v vs' where vs: "vs = v # vs'" "f x = Some v" "map f xs = map Some vs'"
    by (cases vs) auto
  show ?case using Cons.IH [OF vs(3), of "s + v"] vs by (simp add: js_add_def add.assoc)
qed

lemma all_Some_map: "\<forall>x\<in>set xs. f x \<noteq> None \<Longrightarrow> \<exists>vs. map f xs = map Some vs"
proof (induction xs)
  case Nil
  then show ?case by simp
next
  case (Cons x xs)
  then obtain vs where "map f xs = map Some vs" by auto
  moreover from Cons.prems obtain v where "f x = Some v" by auto
  ultimately have "map f (x # xs) = map Some (v # vs)" by simp
  then show ?case by blast
qed

lemma members_MM_emit: "members (MM_emit photos a (a # near)) = a # near"
  by (cases near) (simp_all add: MM_emit_def Let_def)

lemma mset_members_greedy: "mset (concat (map members (greedy photos xs))) = mset xs"
proof (induction photos xs rule: greedy.induct)
  case (1 photos)
  show ?case by simp
next
  case (2 photos area rest)
  have "mset (filter (withinClusterDistance area) rest) +
        mset (filter (\<lambda>b. \<not> withinClusterDistance area b) rest) = mset rest"
    by (induction rest) auto
  then show ?case using 2 by (simp add: members_MM_emit)
qed

lemma MM_emit_Multi:
  assumes near: "\<forall>b\<in>set near. withinClusterDistance a b"
    and emit: "MM_emit photos a (a # near) = Multi g"
  shows "MM_cluster_ok photos g"
proof -
  from emit have ne: "near \<noteq> []" by (auto simp: MM_emit_def split: if_splits)
  then obtain b where "b \<in> set near" by (cases near) auto
  with near have a: "center_lat a \<noteq> None" "center_lng a \<noteq> None"
    using within_coords by blast+
  from near have "\<forall>b\<in>set (a # near). center_lat b \<noteq> None" "\<forall>b\<in>set (a # near). center_lng b \<noteq> None"
    using within_coords a by auto
  then obtain lats lngs where
    lats: "map center_lat (a # near) = map Some lats" and
    lngs: "map center_lng (a # near) = map Some lngs"
    using all_Some_map [of "a # near" center_lat] all_Some_map [of "a # near" center_lng] by blast
  have len: "length lats = length (a # near)" "length lngs = length (a # near)"
    using lats lngs by (metis length_map)+
  have g: "g = \<lparr>cluster_id = ''cluster_'' @ join ''_'' (map area_id (a # near)),
                cluster_name = name ((a # near) ! 0) @ '' '' @ area_word,
                cluster_center_lat = Some (arithmetic_mean lats),
                cluster_center_lng = Some (arithmetic_mean lngs),
                cluster_areas = a # near,
                cluster_photos = concat (map (DM_getPhotosInArea photos) (a # near))\<rparr>"
    using emit ne foldl_js_add [OF lats, of 0] foldl_js_add [OF lngs, of 0] len
    by (simp add: MM_emit_def Let_def arithmetic_mean_def del: foldl_Cons)
  have two: "2 \<le> length (a # near)" using ne by (cases near) auto
  show ?thesis unfolding MM_cluster_ok_def using two lats lngs by (simp add: g)
qed

lemma greedy_Multi: "Multi g \<in> set (greedy photos xs) \<Longrightarrow> MM_cluster_ok photos g"
proof (induction photos xs rule: greedy.induct)
  case (1 photos)
  then show ?case by simp
next
  case (2 photos area rest)
  from "2.prems" consider
    "MM_emit photos area (area # filter (withinClusterDistance area) rest) = Multi g"
    | "Multi g \<in> set (greedy photos (filter (\<lambda>b. \<not> withinClusterDistance area b) rest))"
    by auto
  then show ?case
  proof cases
    case 1
    then show ?thesis by (intro MM_emit_Multi [of "filter (withinClusterDistance area) rest" area]) auto
  next
    case 2
    then show ?thesis by (rule "2.IH")
  qed
qed

lemma MM_createClusters_Multi:
  "Multi g \<in> set (MM_createClusters zoom photos areas) \<Longrightarrow> MM_cluster_ok photos g"
proof (cases "shouldClusterMarkers zoom")
  case True
  assume "Multi g \<in> set (MM_createClusters zoom photos areas)"
  then show ?thesis using greedy_Multi by (simp add: MM_createClusters_greedy [OF True])
next
  case False
  assume "Multi g \<in> set (MM_createClusters zoom photos areas)"
  with False show ?thesis by (auto simp: MM_createClusters_def)
qed

section \<open>Group objects of PhotoMapApp\<close>

lemma foldl_invariant:
  assumes "I s" and "\<And>s x. I s \<Longrightarrow> I (f s x)"
  shows "I (foldl f s xs)"
  using assms(1) by (induction xs arbitrary: s) (auto intro: assms(2))

lemma PMA_collect_foldl:
  "foldl (PMA_collect photos) (P, ph, tlat, tlng) xs =
     (P \<union> area_id ` set xs,
      ph @ concat (map (PMA_getPhotosInArea photos) xs),
      foldl (\<lambda>sum a. js_add sum (center_lat a)) tlat xs,
      foldl (\<lambda>sum a. js_add sum (center_lng a)) tlng xs)"
  by (induction xs arbitrary: P ph tlat tlng) (auto simp: PMA_collect_def)

lemma PMA_within_coords:
  "js_le (PMA_calculateDistance (center_lat a) (center_lng a) (center_lat b) (center_lng b)) r \<Longrightarrow>
     center_lat a \<noteq> None \<and> center_lng a \<noteq> None \<and> center_lat b \<noteq> None \<and> center_lng b \<noteq> None"
  by (auto simp: PMA_calculateDistance_def js_le_def split: option.splits)

lemma PMA_clusterStep_fst:
  "fst (PMA_clusterStep photos areas (clusters, processed) a) = clusters \<or>
   PMA_getPhotosInArea photos a \<noteq> [] \<and>
   fst (PMA_clusterStep photos areas (clusters, processed) a) =
     clusters @ [Single a (Some (PMA_getPhotosInArea photos a))] \<or>
   PMA_nearbyAreas areas processed a \<noteq> [] \<and>
   fst (PMA_clusterStep photos areas (clusters, processed) a) =
     clusters @ [Multi (PMA_group photos a (PMA_nearbyAreas areas processed a))]"
  unfolding PMA_clusterStep_def Let_def PMA_collect_foldl PMA_group_def
  by simp

lemma PMA_group_ok:
  assumes near: "\<forall>b\<in>set near. js_le (PMA_calculateDistance (center_lat a) (center_lng a)
                    (center_lat b) (center_lng b)) (Some 2)"
    and ne: "near \<noteq> []"
  shows "PMA_cluster_ok photos (PMA_group photos a near)"
proof -
  from ne obtain b where "b \<in> set near" by (cases near) auto
  with near have a: "center_lat a \<noteq> None" "center_lng a \<noteq> None"
    using PMA_within_coords by blast+
  have "\<forall>b\<in>set near. center_lat b \<noteq> None \<and> center_lng b \<noteq> None"
    using near PMA_within_coords by blast
  with a have "\<forall>b\<in>set (a # near). center_lat b \<noteq> None" "\<forall>b\<in>set (a # near). center_lng b \<noteq> None"
    by simp_all
  then obtain lats lngs where
    lats: "map center_lat (a # near) = map Some lats" and
    lngs: "map center_lng (a # near) = map Some lngs"
    using all_Some_map [of "a # near" center_lat] all_Some_map [of "a # near" center_lng] by blast
  have len: "length lats = length (a # near)" "length lngs = length (a # near)"
    using lats lngs by (metis length_map)+
  have two: "2 \<le> length (a # near)" using ne by (cases near) auto
  show ?thesis
    unfolding PMA_cluster_ok_def PMA_group_def Let_def
    using two lats lngs len foldl_js_add [OF lats, of 0] foldl_js_add [OF lngs, of 0]
    by (simp add: arithmetic_mean_def del: foldl_Cons)
qed

lemma PMA_nearbyAreas_near:
  "\<forall>b\<in>set (PMA_nearbyAreas areas processed a).
     js_le (PMA_calculateDistance (center_lat a) (center_lng a) (center_lat b) (center_lng b)) (Some 2)"
  by (auto simp: PMA_nearbyAreas_def split: if_splits)

lemma PMA_clusterStep_ok:
  assumes "\<forall>g. Multi g \<in> set (fst st) \<longrightarrow> PMA_cluster_ok photos g"
  shows "\<forall>g. Multi g \<in> set (fst (PMA_clusterStep photos areas st a)) \<longrightarrow> PMA_cluster_ok photos g"
proof -
  obtain clusters processed where st: "st = (clusters, processed)" by (cases st)
  from PMA_clusterStep_fst [of photos areas clusters processed a]
  show ?thesis
  proof (elim disjE conjE)
    assume "fst (PMA_clusterStep photos areas (clusters, processed) a) = clusters"
    then show ?thesis using assms by (simp add: st)
  next
    assume "fst (PMA_clusterStep photos areas (clusters, processed) a) =
      clusters @ [Single a (Some (PMA_getPhotosInArea photos a))]"
    then show ?thesis using assms by (simp add: st)
  next
    assume ne: "PMA_nearbyAreas areas processed a \<noteq> []"
      and eq: "fst (PMA_clusterStep photos areas (clusters, processed) a) =
        clusters @ [Multi (PMA_group photos a (PMA_nearbyAreas areas processed a))]"
    have "PMA_cluster_ok photos (PMA_group photos a (PMA_nearbyAreas areas processed a))"
      by (rule PMA_group_ok [OF PMA_nearbyAreas_near ne])
    then show ?thesis using assms eq by (auto simp: st)
  qed
qed

lemma PMA_createPhotoClusters_Multi:
  "Multi g \<in> set (PMA_createPhotoClusters photos areas) \<Longrightarrow> PMA_cluster_ok photos g"
proof -
  have "\<forall>g. Multi g \<in> set (fst (foldl (PMA_clusterStep photos areas) ([], {}) areas)) \<longrightarrow>
          PMA_cluster_ok photos g"
    by (rule foldl_invariant [where I = "\<lambda>st. \<forall>g. Multi g \<in> set (fst st) \<longrightarrow> PMA_cluster_ok photos g"])
       (simp_all add: PMA_clusterStep_ok)
  then show "Multi g \<in> set (PMA_createPhotoClusters photos areas) \<Longrightarrow> PMA_cluster_ok photos g"
    by (simp add: PMA_createPhotoClusters_def)
qed

section \<open>The render pass of MarkerManager\<close>

lemma DM_photos_truthy:
  "DM_getPhotosInArea photos a \<noteq> [] \<Longrightarrow> truthy (center_lat a) \<and> truthy (center_lng a)"
  by (auto simp: DM_getPhotosInArea_def split: if_splits)

lemma PMA_photos_truthy:
  "PMA_getPhotosInArea photos a \<noteq> [] \<Longrightarrow>
     truthy (center_lat a) \<and> truthy (center_lng a) \<and> truthy (radius a)"
  by (auto simp: PMA_getPhotosInArea_def split: if_splits)

lemma truthy_Some: "truthy x \<Longrightarrow> x \<noteq> None"
  by (cases x) (simp_all add: truthy_def)

lemma MM_addMarker_append:
  "MM_addMarker zoom photos layer c = layer @ MM_addMarker zoom photos [] c"
  by (simp add: MM_addMarker_def Let_def split: option.splits)

lemma MM_addMarker_foldl:
  "foldl (MM_addMarker zoom photos) layer cs = layer @ concat (map (MM_addMarker zoom photos []) cs)"
proof (induction cs arbitrary: layer)
  case Nil
  show ?case by simp
next
  case (Cons c cs)
  show ?case using Cons.IH [of "MM_addMarker zoom photos layer c"]
    by (simp add: MM_addMarker_append [of zoom photos layer c])
qed

lemma MM_addAreaMarkers_concat:
  "MM_addAreaMarkers zoom photos areas =
     concat (map (MM_addMarker zoom photos []) (MM_createClusters zoom photos areas))"
  by (simp add: MM_addAreaMarkers_def MM_addMarker_foldl)

lemma MM_addMarker_Single:
  "MM_addMarker zoom photos [] (Single a ps) =
     (if is_active a \<noteq> Some False \<and> DM_getPhotosInArea photos a \<noteq> []
      then [\<lparr>areaData = Single a ps, photoCount = length (DM_getPhotosInArea photos a),
             iconSize = MM_getResponsiveMarkerSize zoom False\<rparr>]
      else [])"
  using DM_photos_truthy [of photos a]
  by (auto simp: MM_addMarker_def MM_createAreaMarker_def Let_def)

lemma MM_addMarker_eq:
  "MM_addMarker zoom photos [] c =
     (if 0 < (case c of Multi g \<Rightarrow> length (cluster_photos g)
              | Single a ps \<Rightarrow> length (DM_getPhotosInArea photos a)) \<and>
         truthy (cluster_lat c) \<and> truthy (cluster_lng c) \<and> cluster_is_active c \<noteq> Some False
      then [\<lparr>areaData = c,
             photoCount = (case c of Multi g \<Rightarrow> length (cluster_photos g)
                           | Single a ps \<Rightarrow> length (DM_getPhotosInArea photos a)),
             iconSize = MM_getResponsiveMarkerSize zoom (isCluster c)\<rparr>]
      else [])"
  by (cases c) (simp_all add: MM_addMarker_def MM_createAreaMarker_def Let_def)

lemma MM_addMarker_mem:
  assumes "m \<in> set (MM_addMarker zoom photos [] c)"
  shows "areaData m = c \<and> 0 < photoCount m \<and>
         truthy (cluster_lat c) \<and> truthy (cluster_lng c) \<and> cluster_is_active c \<noteq> Some False \<and>
         photoCount m = (case c of Multi g \<Rightarrow> length (cluster_photos g)
                         | Single a ps \<Rightarrow> length (DM_getPhotosInArea photos a))"
proof -
  let ?n = "(case c of Multi g \<Rightarrow> length (cluster_photos g)
             | Single a ps \<Rightarrow> length (DM_getPhotosInArea photos a))"
  note eq = MM_addMarker_eq [of zoom photos c]
  show ?thesis
  proof (cases "0 < ?n \<and> truthy (cluster_lat c) \<and> truthy (cluster_lng c) \<and>
         cluster_is_active c \<noteq> Some False")
    case True
    with assms eq have "m = \<lparr>areaData = c, photoCount = ?n,
             iconSize = MM_getResponsiveMarkerSize zoom (isCluster c)\<rparr>" by simp
    then have "areaData m = c" "photoCount m = ?n" by simp_all
    with True show ?thesis by simp
  next
    case False
    with assms eq show ?thesis by simp
  qed
qed

lemma MM_addAreaMarkers_mem:
  assumes "m \<in> set (MM_addAreaMarkers zoom photos areas)"
  shows "areaData m \<in> set (MM_createClusters zoom photos areas) \<and>
         m \<in> set (MM_addMarker zoom photos [] (areaData m))"
proof -
  from assms obtain c where c: "c \<in> set (MM_createClusters zoom photos areas)"
    "m \<in> set (MM_addMarker zoom photos [] c)"
    by (auto simp: MM_addAreaMarkers_concat)
  with MM_addMarker_mem [OF c(2)] show ?thesis by simp
qed

lemma MM_unclustered:
  "\<not> shouldClusterMarkers zoom \<Longrightarrow>
   MM_addAreaMarkers zoom photos areas =
     map (\<lambda>area. \<lparr>areaData = Single area None,
                   photoCount = length (DM_getPhotosInArea photos area),
                   iconSize = MM_getResponsiveMarkerSize zoom False\<rparr>)
       (filter (\<lambda>area. is_active area \<noteq> Some False \<and> DM_getPhotosInArea photos area \<noteq> []) areas)"
  by (induction areas)
     (simp_all add: MM_addAreaMarkers_concat MM_createClusters_def MM_addMarker_Single)

lemma invalid_not_within:
  assumes "center_lat x = None \<or> center_lng x = None"
  shows "\<not> withinClusterDistance x b" "\<not> withinClusterDistance a x"
  using assms within_coords by blast+

lemma invalid_no_photos:
  assumes "center_lat x = None \<or> center_lng x = None"
  shows "DM_getPhotosInArea photos x = []"
  using assms by (auto simp: DM_getPhotosInArea_def truthy_def)

lemma greedy_skip_invalid:
  assumes inv: "center_lat x = None \<or> center_lng x = None"
  shows "concat (map (MM_addMarker zoom photos []) (greedy photos (xs @ x # ys))) =
         concat (map (MM_addMarker zoom photos []) (greedy photos (xs @ ys)))"
proof (induction "length xs" arbitrary: xs ys rule: less_induct)
  case less
  show ?case
  proof (cases xs)
    case Nil
    have "filter (withinClusterDistance x) ys = []"
      using invalid_not_within(1) [OF inv] by (simp add: filter_empty_conv)
    moreover have "filter (\<lambda>b. \<not> withinClusterDistance x b) ys = ys"
      using invalid_not_within(1) [OF inv] by (simp add: filter_id_conv)
    ultimately have "greedy photos (x # ys) = Single x None # greedy photos ys"
      by (simp add: MM_emit_def)
    then show ?thesis using Nil invalid_no_photos [OF inv, of photos]
      by (simp add: MM_addMarker_Single)
  next
    case (Cons a xs')
    let ?far = "\<lambda>b. \<not> withinClusterDistance a b"
    have l: "length (filter ?far xs') < length xs"
      using Cons by (simp add: le_imp_less_Suc)
    have nx: "\<not> withinClusterDistance a x" by (rule invalid_not_within(2) [OF inv])
    have "concat (map (MM_addMarker zoom photos []) (greedy photos (filter ?far xs' @ x # filter ?far ys))) =
          concat (map (MM_addMarker zoom photos []) (greedy photos (filter ?far xs' @ filter ?far ys)))"
      by (rule less.hyps [OF l])
    then show ?thesis using Cons nx by simp
  qed
qed

section \<open>The render pass of PhotoMapApp\<close>

lemma PMA_addMarker_eq:
  "PMA_addMarker zoom photos [] c =
     (if truthy (cluster_lat c) \<and> truthy (cluster_lng c) \<and> cluster_is_active c \<noteq> Some False \<and>
         0 < (case c of Multi g \<Rightarrow> length (cluster_photos g)
              | Single a (Some ps) \<Rightarrow> length ps
              | Single a None \<Rightarrow> length (PMA_getPhotosInArea photos a))
      then [\<lparr>areaData = c,
             photoCount = (case c of Multi g \<Rightarrow> length (cluster_photos g)
                           | Single a (Some ps) \<Rightarrow> length ps
                           | Single a None \<Rightarrow> length (PMA_getPhotosInArea photos a)),
             iconSize = PMA_getResponsiveMarkerSize zoom (isCluster c)\<rparr>]
      else [])"
proof (cases c)
  case (Multi g)
  then show ?thesis by (simp add: PMA_addMarker_def Let_def)
next
  case (Single a ps)
  then show ?thesis by (cases ps) (simp_all add: PMA_addMarker_def Let_def)
qed

lemma PMA_addMarker_append:
  "PMA_addMarker zoom photos layer c = layer @ PMA_addMarker zoom photos [] c"
  by (simp add: PMA_addMarker_def Let_def)

lemma PMA_addMarker_foldl:
  "foldl (PMA_addMarker zoom photos) layer cs = layer @ concat (map (PMA_addMarker zoom photos []) cs)"
proof (induction cs arbitrary: layer)
  case Nil
  show ?case by simp
next
  case (Cons c cs)
  show ?case using Cons.IH [of "PMA_addMarker zoom photos layer c"]
    by (simp add: PMA_addMarker_append [of zoom photos layer c])
qed

lemma PMA_addAreaMarkers_concat:
  "PMA_addAreaMarkers zoom photos areas =
     concat (map (PMA_addMarker zoom photos [])
       (if PMA_shouldClusterMarkers zoom then PMA_createPhotoClusters photos areas
        else map (\<lambda>area. Single area None) areas))"
  by (simp add: PMA_addAreaMarkers_def Let_def PMA_addMarker_foldl)

lemma PMA_addMarker_mem:
  assumes "m \<in> set (PMA_addMarker zoom photos [] c)"
  shows "areaData m = c \<and> truthy (cluster_lat c) \<and> truthy (cluster_lng c) \<and>
         cluster_is_active c \<noteq> Some False \<and>
         0 < (case c of Multi g \<Rightarrow> length (cluster_photos g)
              | Single a (Some ps) \<Rightarrow> length ps
              | Single a None \<Rightarrow> length (PMA_getPhotosInArea photos a))"
proof -
  let ?n = "(case c of Multi g \<Rightarrow> length (cluster_photos g)
              | Single a (Some ps) \<Rightarrow> length ps
              | Single a None \<Rightarrow> length (PMA_getPhotosInArea photos a))"
  note eq = PMA_addMarker_eq [of zoom photos c]
  show ?thesis
  proof (cases "truthy (cluster_lat c) \<and> truthy (cluster_lng c) \<and>
         cluster_is_active c \<noteq> Some False \<and> 0 < ?n")
    case True
    with assms eq have "m = \<lparr>areaData = c, photoCount = ?n,
             iconSize = PMA_getResponsiveMarkerSize zoom (isCluster c)\<rparr>" by simp
    then have "areaData m = c" by simp
    with True show ?thesis by simp
  next
    case False
    with assms eq show ?thesis by simp
  qed
qed

lemma PMA_clusterStep_Single:
  assumes "\<forall>a ps. Single a ps \<in> set (fst st) \<longrightarrow> PMA_getPhotosInArea photos a \<noteq> []"
  shows "\<forall>a ps. Single a ps \<in> set (fst (PMA_clusterStep photos areas st b)) \<longrightarrow>
           PMA_getPhotosInArea photos a \<noteq> []"
proof -
  obtain clusters processed where st: "st = (clusters, processed)" by (cases st)
  from PMA_clusterStep_fst [of photos areas clusters processed b]
  show ?thesis
  proof (elim disjE conjE)
    assume "fst (PMA_clusterStep photos areas (clusters, processed) b) = clusters"
    then show ?thesis using assms by (simp add: st)
  next
    assume "PMA_getPhotosInArea photos b \<noteq> []"
      and "fst (PMA_clusterStep photos areas (clusters, processed) b) =
        clusters @ [Single b (Some (PMA_getPhotosInArea photos b))]"
    then show ?thesis using assms by (auto simp: st)
  next
    assume "fst (PMA_clusterStep photos areas (clusters, processed) b) =
        clusters @ [Multi (PMA_group photos b (PMA_nearbyAreas areas processed b))]"
    then show ?thesis using assms by (simp add: st)
  qed
qed

lemma PMA_createPhotoClusters_Single:
  "Single a ps \<in> set (PMA_createPhotoClusters photos areas) \<Longrightarrow> PMA_getPhotosInArea photos a \<noteq> []"
proof -
  have "\<forall>a ps. Single a ps \<in> set (fst (foldl (PMA_clusterStep photos areas) ([], {}) areas)) \<longrightarrow>
          PMA_getPhotosInArea photos a \<noteq> []"
  proof (rule foldl_invariant [where I = "\<lambda>st. \<forall>a ps. Single a ps \<in> set (fst st) \<longrightarrow>
          PMA_getPhotosInArea photos a \<noteq> []"])
    show "\<forall>a ps. Single a ps \<in> set (fst ([], {})) \<longrightarrow> PMA_getPhotosInArea photos a \<noteq> []"
      by simp
  next
    fix s :: "cluster list \<times> string set" and x
    assume "\<forall>a ps. Single a ps \<in> set (fst s) \<longrightarrow> PMA_getPhotosInArea photos a \<noteq> []"
    then show "\<forall>a ps. Single a ps \<in> set (fst (PMA_clusterStep photos areas s x)) \<longrightarrow>
        PMA_getPhotosInArea photos a \<noteq> []"
      by (rule PMA_clusterStep_Single)
  qed
  then show "Single a ps \<in> set (PMA_createPhotoClusters photos areas) \<Longrightarrow>
      PMA_getPhotosInArea photos a \<noteq> []"
    unfolding PMA_createPhotoClusters_def by blast
qed

lemma PMA_single_marker_has_photos:
  assumes m: "m \<in> set (PMA_addAreaMarkers zoom photos areas)" and s: "areaData m = Single a ps"
  shows "PMA_getPhotosInArea photos a \<noteq> []"
proof -
  from m have "m \<in> set (concat (map (PMA_addMarker zoom photos [])
       (if PMA_shouldClusterMarkers zoom then PMA_createPhotoClusters photos areas
        else map (\<lambda>area. Single area None) areas)))"
    by (simp only: PMA_addAreaMarkers_concat)
  then obtain c where c: "c \<in> set (if PMA_shouldClusterMarkers zoom
        then PMA_createPhotoClusters photos areas else map (\<lambda>area. Single area None) areas)"
    and r: "m \<in> set (PMA_addMarker zoom photos [] c)"
    unfolding set_concat set_map by blast
  from PMA_addMarker_mem [OF r] s have cs: "c = Single a ps" by simp
  from PMA_addMarker_mem [OF r] have
    "0 < (case c of Multi g \<Rightarrow> length (cluster_photos g)
              | Single a (Some ps) \<Rightarrow> length ps
              | Single a None \<Rightarrow> length (PMA_getPhotosInArea photos a))" by simp
  then have n: "0 < (case ps of Some qs \<Rightarrow> length qs | None \<Rightarrow> length (PMA_getPhotosInArea photos a))"
    unfolding cs by (cases ps) simp_all
  show ?thesis
  proof (cases "PMA_shouldClusterMarkers zoom")
    case True
    with c cs show ?thesis using PMA_createPhotoClusters_Single by simp
  next
    case False
    with c cs have "ps = None" by auto
    with n show ?thesis by simp
  qed
qed

lemma MM_single_marker_has_photos:
  assumes m: "m \<in> set (MM_addAreaMarkers zoom photos areas)" and s: "areaData m = Single a ps"
  shows "DM_getPhotosInArea photos a \<noteq> []"
proof -
  from MM_addAreaMarkers_mem [OF m] have "m \<in> set (MM_addMarker zoom photos [] (areaData m))" by simp
  from MM_addMarker_mem [OF this] s show ?thesis by auto
qed

section \<open>Sizes and ids of the clusters\<close>

lemma MM_isCluster_members:
  "c \<in> set (MM_createClusters zoom photos areas) \<Longrightarrow> isCluster c = (2 \<le> length (members c))"
proof (cases c)
  case (Single a ps)
  then show ?thesis by simp
next
  case (Multi g)
  assume "c \<in> set (MM_createClusters zoom photos areas)"
  with Multi have "MM_cluster_ok photos g" using MM_createClusters_Multi by simp
  then have "2 \<le> length (cluster_areas g)" unfolding MM_cluster_ok_def by blast
  with Multi show ?thesis by simp
qed

lemma PMA_isCluster_members:
  "c \<in> set (PMA_createPhotoClusters photos areas) \<Longrightarrow> isCluster c = (2 \<le> length (members c))"
proof (cases c)
  case (Single a ps)
  then show ?thesis by simp
next
  case (Multi g)
  assume "c \<in> set (PMA_createPhotoClusters photos areas)"
  with Multi have "PMA_cluster_ok photos g" using PMA_createPhotoClusters_Multi by simp
  then have "2 \<le> length (cluster_areas g)" unfolding PMA_cluster_ok_def by blast
  with Multi show ?thesis by simp
qed

lemma MM_cluster_ident:
  assumes c: "c \<in> set (MM_createClusters zoom photos areas)"
  shows "cluster_ident c =
        (if isCluster c then ''cluster_'' @ join ''_'' (map area_id (members c))
         else area_id (members c ! 0))"
proof (cases c)
  case (Single a ps)
  then show ?thesis by simp
next
  case (Multi g)
  with c have "MM_cluster_ok photos g" using MM_createClusters_Multi by simp
  then have "cluster_id g = ''cluster_'' @ join ''_'' (map area_id (cluster_areas g))"
    unfolding MM_cluster_ok_def by blast
  with Multi show ?thesis by simp
qed

lemma PMA_cluster_ident:
  assumes c: "c \<in> set (PMA_createPhotoClusters photos areas)"
  shows "cluster_ident c =
        (if isCluster c then ''cluster_'' @ area_id (members c ! 0)
         else area_id (members c ! 0))"
proof (cases c)
  case (Single a ps)
  then show ?thesis by simp
next
  case (Multi g)
  with c have "PMA_cluster_ok photos g" using PMA_createPhotoClusters_Multi by simp
  then have "cluster_id g = ''cluster_'' @ area_id (cluster_areas g ! 0)"
    unfolding PMA_cluster_ok_def by blast
  with Multi show ?thesis by simp
qed

section \<open>Distances of the test data\<close>

lemma DM_distance_same_point:
  "DM_calculateDistance (Some lat) (Some lng) (Some lat) (Some lng) = Some 0"
  by (simp add: DM_calculateDistance_def degToRad_def Math_atan2_def)

lemma PMA_distance_same_point:
  "PMA_calculateDistance (Some lat) (Some lng) (Some lat) (Some lng) = Some 0"
  by (simp add: PMA_calculateDistance_def Math_atan2_def)

lemma DM_distance_same_lng:
  assumes "\<bar>lat2 - lat1\<bar> < 180"
  shows "DM_calculateDistance (Some lat1) (Some lng) (Some lat2) (Some lng) =
         Some (6371 * (\<bar>lat2 - lat1\<bar> * (pi / 180)))"
proof -
  define x where "x = degToRad (lat2 - lat1) / 2"
  have ax: "\<bar>x\<bar> < pi / 2"
  proof -
    have "\<bar>x\<bar> = \<bar>lat2 - lat1\<bar> * (pi / 360)"
      by (simp add: x_def degToRad_def abs_mult)
    also have "\<dots> < 180 * (pi / 360)"
      using assms by (intro mult_strict_right_mono) simp_all
    finally show ?thesis by simp
  qed
  then have cpos: "0 < cos x" by (intro cos_gt_zero_pi) (simp_all add: abs_less_iff)
  have sq1: "sqrt (sin x * sin x) = \<bar>sin x\<bar>" by simp
  have "1 - sin x * sin x = cos x * cos x"
    using sin_cos_squared_add [of x] by (simp add: power2_eq_square algebra_simps)
  then have sq2: "sqrt (1 - sin x * sin x) = cos x" using cpos by simp
  have t: "\<bar>sin x\<bar> / cos x = \<bar>tan x\<bar>" using cpos by (simp add: tan_def abs_divide)
  have "\<bar>tan x\<bar> = tan \<bar>x\<bar>"
  proof (cases "0 \<le> x")
    case True
    have "0 \<le> tan x"
    proof (cases "x = 0")
      case True
      then show ?thesis by simp
    next
      case False
      with \<open>0 \<le> x\<close> ax have "0 < tan x" by (intro tan_gt_zero) simp_all
      then show ?thesis by simp
    qed
    with True show ?thesis by simp
  next
    case False
    with ax have "0 < tan (- x)" by (intro tan_gt_zero) simp_all
    then have "tan x < 0" by simp
    with False show ?thesis by simp
  qed
  with t have "arctan (\<bar>sin x\<bar> / cos x) = arctan (tan \<bar>x\<bar>)" by simp
  also have "\<dots> = \<bar>x\<bar>" using ax by (intro arctan_tan) simp_all
  finally have at: "Math_atan2 \<bar>sin x\<bar> (cos x) = \<bar>x\<bar>" using cpos by (simp add: Math_atan2_def)
  have "DM_calculateDistance (Some lat1) (Some lng) (Some lat2) (Some lng) =
        Some (6371 * (2 * Math_atan2 (sqrt (sin x * sin x)) (sqrt (1 - sin x * sin x))))"
    by (simp add: DM_calculateDistance_def Let_def x_def degToRad_def)
  also have "\<dots> = Some (6371 * (2 * \<bar>x\<bar>))" unfolding sq1 sq2 at ..
  also have "2 * \<bar>x\<bar> = \<bar>lat2 - lat1\<bar> * (pi / 180)"
    by (simp add: x_def degToRad_def abs_mult)
  finally show ?thesis .
qed

lemma within_a1_a2: "withinClusterDistance area_a1 area_a2" "withinClusterDistance area_a2 area_a1"
  by (simp_all add: withinClusterDistance_def area_a1_def area_a2_def DM_distance_same_point
      js_le_def CLUSTER_DISTANCE_KM_def)

lemma within_a1_b: "withinClusterDistance area_a1 area_b"
proof -
  have "DM_calculateDistance (Some 34.85) (Some 134.6) (Some 34.86) (Some 134.6) =
        Some (6371 * (\<bar>34.86 - 34.85\<bar> * (pi / 180)))"
    by (rule DM_distance_same_lng) simp
  moreover have "6371 * (\<bar>34.86 - 34.85\<bar> * (pi / 180)) \<le> (2::real)"
    using pi_less_4 by simp
  ultimately show ?thesis
    by (simp add: withinClusterDistance_def area_a1_def area_b_def js_le_def CLUSTER_DISTANCE_KM_def)
qed

lemma photos_a1: "DM_getPhotosInArea [photo_p1] area_a1 = [photo_p1]"
  by (simp add: DM_getPhotosInArea_def area_a1_def photo_p1_def truthy_def DM_distance_same_point js_le_def)

lemma photos_a2: "DM_getPhotosInArea [photo_p1] area_a2 = [photo_p1]"
  by (simp add: DM_getPhotosInArea_def area_a2_def photo_p1_def truthy_def DM_distance_same_point js_le_def)

lemma photos_b: "DM_getPhotosInArea [photo_p1] area_b = []"
proof -
  have "DM_calculateDistance (Some 34.85) (Some 134.6) (Some 34.86) (Some 134.6) =
        Some (6371 * (\<bar>34.86 - 34.85\<bar> * (pi / 180)))"
    by (rule DM_distance_same_lng) simp
  moreover have "\<not> 6371 * (\<bar>34.86 - 34.85\<bar> * (pi / 180)) \<le> (0.5::real)"
    using pi_ge_two by simp
  ultimately show ?thesis
    by (simp add: DM_getPhotosInArea_def area_b_def photo_p1_def truthy_def js_le_def)
qed

section \<open>Evaluation on the test data\<close>

lemma test_areas_distinct:
  "area_a1 \<noteq> area_a2" "area_a1 \<noteq> area_b" "area_a2 \<noteq> area_b"
  by (simp_all add: area_a1_def area_a2_def area_b_def)

lemma test_fields:
  "center_lat area_a1 = Some 34.85" "center_lng area_a1 = Some 134.6"
  "center_lat area_a2 = Some 34.85" "center_lng area_a2 = Some 134.6"
  "center_lat area_b = Some 34.86" "center_lng area_b = Some 134.6"
  "area_id area_a1 = ''a1''" "area_id area_a2 = ''a2''" "area_id area_b = ''b''"
  "name area_a1 = ''A1''" "name area_a2 = ''A2''" "name area_b = ''B''"
  "is_active area_a1 = Some True" "is_active area_a2 = Some True" "is_active area_b = Some True"
  by (simp_all add: area_a1_def area_a2_def area_b_def)

lemma MM_clusters_a1_b:
  "MM_createClusters 10 [photo_p1] [area_a1, area_b] =
     [Multi \<lparr>cluster_id = ''cluster_a1_b'',
             cluster_name = ''A1 '' @ area_word,
             cluster_center_lat = Some 34.855,
             cluster_center_lng = Some 134.6,
             cluster_areas = [area_a1, area_b],
             cluster_photos = [photo_p1]\<rparr>]"
  by (simp add: MM_createClusters_def shouldClusterMarkers_def CLUSTER_ZOOM_THRESHOLD_def
      MM_clusterStep_def within_a1_b MM_emit_def photos_a1 photos_b test_fields js_add_def)

lemma MM_clusters_a1_a2:
  "MM_createClusters 10 [photo_p1] [area_a1, area_a2] =
     [Multi \<lparr>cluster_id = ''cluster_a1_a2'',
             cluster_name = ''A1 '' @ area_word,
             cluster_center_lat = Some 34.85,
             cluster_center_lng = Some 134.6,
             cluster_areas = [area_a1, area_a2],
             cluster_photos = [photo_p1, photo_p1]\<rparr>]"
  by (simp add: MM_createClusters_def shouldClusterMarkers_def CLUSTER_ZOOM_THRESHOLD_def
      MM_clusterStep_def within_a1_a2 MM_emit_def photos_a1 photos_a2 test_fields js_add_def)

lemma MM_clusters_a2_a1:
  "MM_createClusters 10 [photo_p1] [area_a2, area_a1] =
     [Multi \<lparr>cluster_id = ''cluster_a2_a1'',
             cluster_name = ''A2 '' @ area_word,
             cluster_center_lat = Some 34.85,
             cluster_center_lng = Some 134.6,
             cluster_areas = [area_a2, area_a1],
             cluster_photos = [photo_p1, photo_p1]\<rparr>]"
  by (simp add: MM_createClusters_def shouldClusterMarkers_def CLUSTER_ZOOM_THRESHOLD_def
      MM_clusterStep_def within_a1_a2 MM_emit_def photos_a1 photos_a2 test_fields js_add_def)

lemma MM_markers_a1_b:
  "map (\<lambda>m. (members (areaData m), photoCount m)) (MM_addAreaMarkers 10 [photo_p1] [area_a1, area_b]) =
     [([area_a1, area_b], 1)]"
  by (simp add: MM_addAreaMarkers_def MM_clusters_a1_b MM_addMarker_def MM_createAreaMarker_def truthy_def)

lemma MM_markers_a1_a2:
  "map (\<lambda>m. (members (areaData m), photoCount m)) (MM_addAreaMarkers 10 [photo_p1] [area_a1, area_a2]) =
     [([area_a1, area_a2], 2)]"
  by (simp add: MM_addAreaMarkers_def MM_clusters_a1_a2 MM_addMarker_def MM_createAreaMarker_def truthy_def)

lemma PMA_photos_a1: "PMA_getPhotosInArea [photo_p1] area_a1 = [photo_p1]"
  by (simp add: PMA_getPhotosInArea_def area_a1_def photo_p1_def truthy_def
      PMA_distance_same_point js_le_def)

lemma PMA_photos_a2: "PMA_getPhotosInArea [photo_p1] area_a2 = [photo_p1]"
  by (simp add: PMA_getPhotosInArea_def area_a2_def photo_p1_def truthy_def
      PMA_distance_same_point js_le_def)

lemma PMA_near_a1_a2:
  "PMA_nearbyAreas [area_a1, area_a2] {} area_a1 = [area_a2]"
  "PMA_nearbyAreas [area_a2, area_a1] {} area_a2 = [area_a1]"
  by (simp_all add: PMA_nearbyAreas_def test_fields PMA_distance_same_point js_le_def)

lemma PMA_clusters_a1_a2:
  "map (\<lambda>c. (cluster_ident c, members c, cluster_lat c, cluster_lng c))
     (PMA_createPhotoClusters [photo_p1] [area_a1, area_a2]) =
     [(''cluster_a1'', [area_a1, area_a2], Some 34.85, Some 134.6)]"
  by (simp add: PMA_createPhotoClusters_def PMA_clusterStep_def PMA_near_a1_a2 PMA_collect_def
      PMA_photos_a1 PMA_photos_a2 test_fields js_add_def)

lemma PMA_clusters_a2_a1:
  "map (\<lambda>c. (cluster_ident c, members c, cluster_lat c, cluster_lng c))
     (PMA_createPhotoClusters [photo_p1] [area_a2, area_a1]) =
     [(''cluster_a2'', [area_a2, area_a1], Some 34.85, Some 134.6)]"
  by (simp add: PMA_createPhotoClusters_def PMA_clusterStep_def PMA_near_a1_a2 PMA_collect_def
      PMA_photos_a1 PMA_photos_a2 test_fields js_add_def)

lemma more_test_fields:
  "center_lat area_norad = Some 34.85" "center_lng area_norad = Some 134.6"
  "radius area_norad = None" "area_id area_norad = ''r''" "is_active area_norad = Some True"
  "center_lat area_equator = Some 0" "center_lng area_equator = Some 134.6"
  "area_id area_equator = ''e''" "name area_equator = ''E''" "is_active area_equator = Some True"
  "center_lat area_f = Some 0.01" "center_lng area_f = Some 134.6"
  "area_id area_f = ''f''" "name area_f = ''F''" "is_active area_f = Some True"
  by (simp_all add: area_norad_def area_equator_def area_f_def)

lemma MM_clusters_a1_a2_zoom11:
  "MM_createClusters 11 [photo_p1] [area_a1, area_a2] =
     [Multi \<lparr>cluster_id = ''cluster_a1_a2'',
             cluster_name = ''A1 '' @ area_word,
             cluster_center_lat = Some 34.85,
             cluster_center_lng = Some 134.6,
             cluster_areas = [area_a1, area_a2],
             cluster_photos = [photo_p1, photo_p1]\<rparr>]"
  by (simp add: MM_createClusters_def shouldClusterMarkers_def CLUSTER_ZOOM_THRESHOLD_def
      MM_clusterStep_def within_a1_a2 MM_emit_def photos_a1 photos_a2 test_fields js_add_def)

lemma PMA_photos_norad: "PMA_getPhotosInArea [photo_p1] area_norad = []"
  by (simp add: PMA_getPhotosInArea_def more_test_fields truthy_def)

lemma PMA_near_norad: "PMA_nearbyAreas [area_norad, area_a1] {} area_norad = [area_a1]"
  by (simp add: PMA_nearbyAreas_def test_fields more_test_fields PMA_distance_same_point js_le_def)

lemma PMA_clusters_norad_a1:
  "map (\<lambda>c. (cluster_ident c, members c, cluster_lat c, cluster_lng c))
     (PMA_createPhotoClusters [photo_p1] [area_norad, area_a1]) =
     [(''cluster_r'', [area_norad, area_a1], Some 34.85, Some 134.6)]"
  by (simp add: PMA_createPhotoClusters_def PMA_clusterStep_def PMA_near_norad PMA_collect_def
      PMA_photos_a1 PMA_photos_norad test_fields more_test_fields js_add_def)

lemma PMA_markers_norad_a1:
  "map (\<lambda>m. (cluster_ident (areaData m), members (areaData m), photoCount m))
     (PMA_addAreaMarkers 10 [photo_p1] [area_norad, area_a1]) =
     [(''cluster_r'', [area_norad, area_a1], 1)]"
  by (simp add: PMA_addAreaMarkers_def PMA_shouldClusterMarkers_def PMA_addMarker_def
      PMA_createPhotoClusters_def PMA_clusterStep_def PMA_near_norad PMA_collect_def
      PMA_photos_a1 PMA_photos_norad test_fields more_test_fields js_add_def truthy_def)

lemma within_equator_f: "withinClusterDistance area_equator area_f"
proof -
  have "DM_calculateDistance (Some 0) (Some 134.6) (Some 0.01) (Some 134.6) =
        Some (6371 * (\<bar>0.01 - 0\<bar> * (pi / 180)))"
    by (rule DM_distance_same_lng) simp
  moreover have "6371 * (\<bar>0.01 - 0\<bar> * (pi / 180)) \<le> (2::real)"
    using pi_less_4 by simp
  ultimately show ?thesis
    by (simp add: withinClusterDistance_def more_test_fields js_le_def CLUSTER_DISTANCE_KM_def)
qed

lemma photos_f: "DM_getPhotosInArea [photo_f] area_f = [photo_f]"
  by (simp add: DM_getPhotosInArea_def area_f_def photo_f_def truthy_def DM_distance_same_point js_le_def)

lemma photos_equator: "DM_getPhotosInArea [photo_f] area_equator = []"
  by (simp add: DM_getPhotosInArea_def more_test_fields truthy_def)

lemma MM_markers_equator_f:
  "map (\<lambda>m. (cluster_ident (areaData m), members (areaData m), cluster_lat (areaData m)))
     (MM_addAreaMarkers 10 [photo_f] [area_equator, area_f]) =
     [(''cluster_e_f'', [area_equator, area_f], Some 0.005)]"
  by (simp add: MM_addAreaMarkers_def MM_addMarker_def MM_createAreaMarker_def
      MM_createClusters_def shouldClusterMarkers_def CLUSTER_ZOOM_THRESHOLD_def
      MM_clusterStep_def within_equator_f MM_emit_def photos_f photos_equator
      more_test_fields js_add_def truthy_def)

lemma MM_markers_nolat_f:
  "map (\<lambda>m. (cluster_ident (areaData m), members (areaData m), cluster_lat (areaData m)))
     (MM_addAreaMarkers 10 [photo_f] [area_equator\<lparr>center_lat := None\<rparr>, area_f]) =
     [(''f'', [area_f], Some 0.01)]"
proof -
  let ?x = "area_equator\<lparr>center_lat := None\<rparr>"
  have inv: "center_lat ?x = None \<or> center_lng ?x = None" by simp
  have "MM_addAreaMarkers 10 [photo_f] ([] @ ?x # [area_f]) =
        concat (map (MM_addMarker 10 [photo_f] []) (greedy [photo_f] ([] @ [area_f])))"
    by (simp only: MM_addAreaMarkers_concat greedy_skip_invalid [OF inv]
        MM_createClusters_greedy [of 10, simplified shouldClusterMarkers_def CLUSTER_ZOOM_THRESHOLD_def, simplified])
  then show ?thesis
    by (simp add: MM_emit_def MM_addMarker_Single photos_f more_test_fields)
qed

section \<open>Members and markers of createClusters\<close>

lemma mset_members_createClusters:
  "mset (concat (map members (MM_createClusters zoom photos areas))) = mset areas"
proof (cases "shouldClusterMarkers zoom")
  case True
  then show ?thesis by (simp add: MM_createClusters_greedy mset_members_greedy)
next
  case False
  have "concat (map members (map (\<lambda>area. Single area None) areas)) = areas"
    by (induction areas) simp_all
  with False show ?thesis by (simp add: MM_createClusters_def)
qed

lemma MM_marker_has_photos:
  assumes "m \<in> set (MM_addAreaMarkers zoom photos areas)"
  shows "\<exists>a\<in>set (members (areaData m)). DM_getPhotosInArea photos a \<noteq> []"
proof -
  from MM_addAreaMarkers_mem [OF assms] have c: "areaData m \<in> set (MM_createClusters zoom photos areas)"
    and r: "m \<in> set (MM_addMarker zoom photos [] (areaData m))" by simp_all
  note mm = MM_addMarker_mem [OF r]
  show ?thesis
  proof (cases "areaData m")
    case (Single b ps)
    with mm show ?thesis by auto
  next
    case (Multi g)
    with c have "MM_cluster_ok photos g" using MM_createClusters_Multi by simp
    then have "cluster_photos g = concat (map (DM_getPhotosInArea photos) (cluster_areas g))"
      unfolding MM_cluster_ok_def by blast
    moreover from mm Multi have "cluster_photos g \<noteq> []" by auto
    ultimately have "\<exists>a\<in>set (cluster_areas g). DM_getPhotosInArea photos a \<noteq> []" by auto
    with Multi show ?thesis by simp
  qed
qed

section \<open>Clustering: coverage, zoom gating, centre, count and id\<close>

text \<open>
  Claim C1, as the code has it.  \<^verbatim>\<open>MarkerManager.createClusters\<close> puts every active
  area with at least one photo into exactly one cluster: it occurs among the members of
  the clusters as often as in the input.  A marker for a single area is created only when
  the area is not inactive and has a photo, and every marker stands for at least one area
  that has a photo; a cluster with such an area gets its marker when its centre
  coordinates are truthy and it is not inactive.  An area without photos is not kept out
  of a group, though: the groups are formed by distance alone.
\<close>

lemma MM_cluster_rendered:
  assumes c: "c \<in> set (MM_createClusters zoom photos areas)"
    and a: "a \<in> set (members c)" "DM_getPhotosInArea photos a \<noteq> []"
    and ok: "truthy (cluster_lat c)" "truthy (cluster_lng c)" "cluster_is_active c \<noteq> Some False"
  shows "\<exists>m\<in>set (MM_addAreaMarkers zoom photos areas). areaData m = c"
proof -
  have n: "0 < (case c of Multi g \<Rightarrow> length (cluster_photos g)
                 | Single b ps \<Rightarrow> length (DM_getPhotosInArea photos b))"
  proof (cases c)
    case (Single b ps)
    with a show ?thesis by simp
  next
    case (Multi g)
    with c have "MM_cluster_ok photos g" using MM_createClusters_Multi by simp
    then have "cluster_photos g = concat (map (DM_getPhotosInArea photos) (cluster_areas g))"
      unfolding MM_cluster_ok_def by blast
    with a Multi have "cluster_photos g \<noteq> []" by auto
    with Multi show ?thesis by simp
  qed
  let ?m = "\<lparr>areaData = c,
             photoCount = (case c of Multi g \<Rightarrow> length (cluster_photos g)
                           | Single b ps \<Rightarrow> length (DM_getPhotosInArea photos b)),
             iconSize = MM_getResponsiveMarkerSize zoom (isCluster c)\<rparr>"
  have "MM_addMarker zoom photos [] c = [?m]"
    using n ok by (simp add: MM_addMarker_eq)
  with c have "?m \<in> set (MM_addAreaMarkers zoom photos areas)"
    unfolding MM_addAreaMarkers_concat by (auto intro!: bexI [of _ c])
  moreover have "areaData ?m = c" by simp
  ultimately show ?thesis by blast
qed

theorem C1_coverage:
  "(\<forall>a. is_active a \<noteq> Some False \<and> DM_getPhotosInArea photos a \<noteq> [] \<longrightarrow>
        count (mset (concat (map members (MM_createClusters zoom photos areas)))) a =
        count (mset areas) a) \<and>
   (\<forall>m\<in>set (MM_addAreaMarkers zoom photos areas). \<forall>a ps. areaData m = Single a ps \<longrightarrow>
        is_active a \<noteq> Some False \<and> DM_getPhotosInArea photos a \<noteq> []) \<and>
   (\<forall>m\<in>set (MM_addAreaMarkers zoom photos areas).
        \<exists>a\<in>set (members (areaData m)). DM_getPhotosInArea photos a \<noteq> []) \<and>
   (\<forall>c\<in>set (MM_createClusters zoom photos areas).
        (\<exists>a\<in>set (members c). DM_getPhotosInArea photos a \<noteq> []) \<and>
        truthy (cluster_lat c) \<and> truthy (cluster_lng c) \<and> cluster_is_active c \<noteq> Some False \<longrightarrow>
        (\<exists>m\<in>set (MM_addAreaMarkers zoom photos areas). areaData m = c))"
proof (intro conjI allI impI ballI)
  fix a
  show "count (mset (concat (map members (MM_createClusters zoom photos areas)))) a =
        count (mset areas) a"
    by (simp only: mset_members_createClusters)
next
  fix m a ps
  assume m: "m \<in> set (MM_addAreaMarkers zoom photos areas)" and s: "areaData m = Single a ps"
  from MM_addAreaMarkers_mem [OF m] have "m \<in> set (MM_addMarker zoom photos [] (areaData m))" by simp
  from MM_addMarker_mem [OF this] s
  show "is_active a \<noteq> Some False" and "DM_getPhotosInArea photos a \<noteq> []" by auto
next
  fix m
  assume "m \<in> set (MM_addAreaMarkers zoom photos areas)"
  then show "\<exists>a\<in>set (members (areaData m)). DM_getPhotosInArea photos a \<noteq> []"
    by (rule MM_marker_has_photos)
next
  fix c
  assume c: "c \<in> set (MM_createClusters zoom photos areas)"
    and h: "(\<exists>a\<in>set (members c). DM_getPhotosInArea photos a \<noteq> []) \<and>
        truthy (cluster_lat c) \<and> truthy (cluster_lng c) \<and> cluster_is_active c \<noteq> Some False"
  then obtain a where "a \<in> set (members c)" "DM_getPhotosInArea photos a \<noteq> []" by blast
  with c h show "\<exists>m\<in>set (MM_addAreaMarkers zoom photos areas). areaData m = c"
    by (intro MM_cluster_rendered [of c zoom photos areas a]) simp_all
qed

text \<open>On two areas 1.1 km apart the first, which has a photo, is in one cluster, and
  that cluster has a marker.\<close>

theorem C1_coverage_witness:
  "is_active area_a1 \<noteq> Some False \<and> DM_getPhotosInArea [photo_p1] area_a1 \<noteq> [] \<and>
   count (mset (concat (map members (MM_createClusters 10 [photo_p1] [area_a1, area_b])))) area_a1 = 1 \<and>
   (\<exists>m\<in>set (MM_addAreaMarkers 10 [photo_p1] [area_a1, area_b]).
      area_a1 \<in> set (members (areaData m)))"
proof -
  let ?c = "Multi \<lparr>cluster_id = ''cluster_a1_b'',
             cluster_name = ''A1 '' @ area_word,
             cluster_center_lat = Some 34.855,
             cluster_center_lng = Some 134.6,
             cluster_areas = [area_a1, area_b],
             cluster_photos = [photo_p1]\<rparr>"
  note C1 = C1_coverage [of "[photo_p1]" 10 "[area_a1, area_b]"]
  have h: "is_active area_a1 \<noteq> Some False \<and> DM_getPhotosInArea [photo_p1] area_a1 \<noteq> []"
    by (simp add: test_fields photos_a1)
  from C1 h
  have "count (mset (concat (map members (MM_createClusters 10 [photo_p1] [area_a1, area_b])))) area_a1 =
        count (mset [area_a1, area_b]) area_a1" by blast
  with test_areas_distinct
  have one: "count (mset (concat (map members (MM_createClusters 10 [photo_p1] [area_a1, area_b])))) area_a1 = 1"
    by simp
  have c: "?c \<in> set (MM_createClusters 10 [photo_p1] [area_a1, area_b])"
    by (simp add: MM_clusters_a1_b)
  have r: "(\<exists>a\<in>set (members ?c). DM_getPhotosInArea [photo_p1] a \<noteq> []) \<and>
        truthy (cluster_lat ?c) \<and> truthy (cluster_lng ?c) \<and> cluster_is_active ?c \<noteq> Some False"
    by (simp add: photos_a1 truthy_def)
  from C1 c r obtain m where m: "m \<in> set (MM_addAreaMarkers 10 [photo_p1] [area_a1, area_b])"
    "areaData m = ?c" by blast
  from m(2) have "area_a1 \<in> set (members (areaData m))" by simp
  with m(1) have "\<exists>m\<in>set (MM_addAreaMarkers 10 [photo_p1] [area_a1, area_b]).
      area_a1 \<in> set (members (areaData m))" by blast
  with h one show ?thesis by blast
qed

text \<open>
  Claim C1 as stated fails: \<open>area_b\<close> is active and has no photo, yet the one marker
  of the render pass at zoom 10 stands for the cluster of \<open>area_a1\<close> and \<open>area_b\<close>.
\<close>

theorem C1_zero_photo_area_counterexample:
  "is_active area_b = Some True \<and> DM_getPhotosInArea [photo_p1] area_b = [] \<and>
   map (\<lambda>m. (members (areaData m), photoCount m))
     (MM_addAreaMarkers 10 [photo_p1] [area_a1, area_b]) = [([area_a1, area_b], 1)]"
  using MM_markers_a1_b by (simp add: test_fields photos_b)

text \<open>
  Claim C2: above the zoom threshold \<^verbatim>\<open>createClusters\<close> returns the areas one by one
  with \<^verbatim>\<open>isCluster: false\<close>, and the render pass creates one marker for each area that
  is not inactive and has at least one photo, in input order; their number is the number
  of such areas, and none is a cluster.
\<close>

theorem C2_zoom_gating:
  "CLUSTER_ZOOM_THRESHOLD < zoom \<Longrightarrow>
     MM_createClusters zoom photos areas = map (\<lambda>area. Single area None) areas \<and>
     MM_addAreaMarkers zoom photos areas =
       map (\<lambda>area. \<lparr>areaData = Single area None,
                     photoCount = length (DM_getPhotosInArea photos area),
                     iconSize = MM_getResponsiveMarkerSize zoom False\<rparr>)
         (filter (\<lambda>area. is_active area \<noteq> Some False \<and> DM_getPhotosInArea photos area \<noteq> []) areas) \<and>
     length (MM_addAreaMarkers zoom photos areas) =
       length (filter (\<lambda>area. is_active area \<noteq> Some False \<and> DM_getPhotosInArea photos area \<noteq> []) areas) \<and>
     (\<forall>m\<in>set (MM_addAreaMarkers zoom photos areas). \<not> isCluster (areaData m))"
proof -
  assume "CLUSTER_ZOOM_THRESHOLD < zoom"
  then have no: "\<not> shouldClusterMarkers zoom" by (simp add: shouldClusterMarkers_def)
  have 1: "MM_createClusters zoom photos areas = map (\<lambda>area. Single area None) areas"
    using no by (simp add: MM_createClusters_def)
  note 2 = MM_unclustered [OF no, of photos areas]
  have 3: "length (MM_addAreaMarkers zoom photos areas) =
       length (filter (\<lambda>area. is_active area \<noteq> Some False \<and> DM_getPhotosInArea photos area \<noteq> []) areas)"
    unfolding 2 by simp
  have 4: "\<forall>m\<in>set (MM_addAreaMarkers zoom photos areas). \<not> isCluster (areaData m)"
    unfolding 2 by auto
  from 1 2 3 4 show ?thesis by blast
qed

text \<open>At zoom 14 the two areas that have the photo get one marker each; \<open>area_b\<close>, which
  has none, gets no marker.\<close>

theorem C2_zoom_gating_witness:
  "CLUSTER_ZOOM_THRESHOLD < 14 \<and>
   map areaData (MM_addAreaMarkers 14 [photo_p1] [area_a1, area_b, area_a2]) =
     [Single area_a1 None, Single area_a2 None] \<and>
   length (MM_addAreaMarkers 14 [photo_p1] [area_a1, area_b, area_a2]) = 2"
proof -
  have z: "CLUSTER_ZOOM_THRESHOLD < 14" by (simp add: CLUSTER_ZOOM_THRESHOLD_def)
  have a: "is_active area_a1 \<noteq> Some False" "is_active area_a2 \<noteq> Some False"
    by (simp_all add: area_a1_def area_a2_def)
  from C2_zoom_gating [OF z, of "[photo_p1]" "[area_a1, area_b, area_a2]"] z a
  show ?thesis by (simp add: photos_a1 photos_a2 photos_b)
qed

text \<open>
  Claim C3: for every group object that the clustering pushes, in
  \<^verbatim>\<open>MarkerManager.createClusters\<close> and in \<^verbatim>\<open>PhotoMapApp.createPhotoClusters\<close>, all
  member areas have coordinates, the centre is the arithmetic mean of theirs, and the
  number of photos is the sum of the members' photo counts, each computed by the
  membership test on the whole collection; the count on the marker is that sum.
\<close>

theorem C3_cluster_center_and_count:
  "(\<forall>g. Multi g \<in> set (MM_createClusters zoom photos areas) \<longrightarrow>
      (\<exists>lats lngs.
         map center_lat (cluster_areas g) = map Some lats \<and>
         map center_lng (cluster_areas g) = map Some lngs \<and>
         cluster_center_lat g = Some (arithmetic_mean lats) \<and>
         cluster_center_lng g = Some (arithmetic_mean lngs)) \<and>
      length (cluster_photos g) =
        sum_list (map (\<lambda>a. length (DM_getPhotosInArea photos a)) (cluster_areas g))) \<and>
   (\<forall>m\<in>set (MM_addAreaMarkers zoom photos areas). \<forall>g. areaData m = Multi g \<longrightarrow>
      photoCount m = sum_list (map (\<lambda>a. length (DM_getPhotosInArea photos a)) (cluster_areas g))) \<and>
   (\<forall>g. Multi g \<in> set (PMA_createPhotoClusters photos areas) \<longrightarrow>
      (\<exists>lats lngs.
         map center_lat (cluster_areas g) = map Some lats \<and>
         map center_lng (cluster_areas g) = map Some lngs \<and>
         cluster_center_lat g = Some (arithmetic_mean lats) \<and>
         cluster_center_lng g = Some (arithmetic_mean lngs)) \<and>
      length (cluster_photos g) =
        sum_list (map (\<lambda>a. length (PMA_getPhotosInArea photos a)) (cluster_areas g)))"
proof (intro conjI allI impI ballI)
  fix g
  assume "Multi g \<in> set (MM_createClusters zoom photos areas)"
  then have ok: "MM_cluster_ok photos g" by (rule MM_createClusters_Multi)
  then show "\<exists>lats lngs.
         map center_lat (cluster_areas g) = map Some lats \<and>
         map center_lng (cluster_areas g) = map Some lngs \<and>
         cluster_center_lat g = Some (arithmetic_mean lats) \<and>
         cluster_center_lng g = Some (arithmetic_mean lngs)"
    unfolding MM_cluster_ok_def by blast
  from ok have "cluster_photos g = concat (map (DM_getPhotosInArea photos) (cluster_areas g))"
    unfolding MM_cluster_ok_def by blast
  then show "length (cluster_photos g) =
        sum_list (map (\<lambda>a. length (DM_getPhotosInArea photos a)) (cluster_areas g))"
    by (simp add: length_concat o_def)
next
  fix m g
  assume m: "m \<in> set (MM_addAreaMarkers zoom photos areas)" and g: "areaData m = Multi g"
  from MM_addAreaMarkers_mem [OF m] g have c: "Multi g \<in> set (MM_createClusters zoom photos areas)"
    and r: "m \<in> set (MM_addMarker zoom photos [] (Multi g))" by simp_all
  from MM_addMarker_mem [OF r] have "photoCount m = length (cluster_photos g)" by simp
  moreover from MM_createClusters_Multi [OF c]
  have "cluster_photos g = concat (map (DM_getPhotosInArea photos) (cluster_areas g))"
    unfolding MM_cluster_ok_def by blast
  ultimately show "photoCount m =
      sum_list (map (\<lambda>a. length (DM_getPhotosInArea photos a)) (cluster_areas g))"
    by (simp add: length_concat o_def)
next
  fix g
  assume "Multi g \<in> set (PMA_createPhotoClusters photos areas)"
  then have ok: "PMA_cluster_ok photos g" by (rule PMA_createPhotoClusters_Multi)
  then show "\<exists>lats lngs.
         map center_lat (cluster_areas g) = map Some lats \<and>
         map center_lng (cluster_areas g) = map Some lngs \<and>
         cluster_center_lat g = Some (arithmetic_mean lats) \<and>
         cluster_center_lng g = Some (arithmetic_mean lngs)"
    unfolding PMA_cluster_ok_def by blast
  from ok have "cluster_photos g = concat (map (PMA_getPhotosInArea photos) (cluster_areas g))"
    unfolding PMA_cluster_ok_def by blast
  then show "length (cluster_photos g) =
        sum_list (map (\<lambda>a. length (PMA_getPhotosInArea photos a)) (cluster_areas g))"
    by (simp add: length_concat o_def)
qed


text \<open>Two areas with the same centre and one photo there: the cluster counts the photo
  twice.\<close>

theorem C3_cluster_center_and_count_witness:
  "(\<exists>g. MM_createClusters 10 [photo_p1] [area_a1, area_a2] = [Multi g] \<and>
        cluster_areas g = [area_a1, area_a2] \<and>
        cluster_center_lat g = Some (arithmetic_mean [34.85, 34.85]) \<and>
        cluster_center_lng g = Some (arithmetic_mean [134.6, 134.6]) \<and>
        length (cluster_photos g) = 2) \<and>
   length (DM_getPhotosInArea [photo_p1] area_a1) = 1 \<and>
   length (DM_getPhotosInArea [photo_p1] area_a2) = 1"
proof -
  let ?g = "\<lparr>cluster_id = ''cluster_a1_a2'',
             cluster_name = ''A1 '' @ area_word,
             cluster_center_lat = Some 34.85,
             cluster_center_lng = Some 134.6,
             cluster_areas = [area_a1, area_a2],
             cluster_photos = [photo_p1, photo_p1]\<rparr>"
  have mem: "Multi ?g \<in> set (MM_createClusters 10 [photo_p1] [area_a1, area_a2])"
    by (simp add: MM_clusters_a1_a2)
  from C3_cluster_center_and_count [of 10 "[photo_p1]" "[area_a1, area_a2]"] mem
  have "length (cluster_photos ?g) =
        sum_list (map (\<lambda>a. length (DM_getPhotosInArea [photo_p1] a)) (cluster_areas ?g))"
    by blast
  then have "length (cluster_photos ?g) = 2" by (simp add: photos_a1 photos_a2)
  then show ?thesis
    by (simp add: MM_clusters_a1_a2 photos_a1 photos_a2 arithmetic_mean_def)
qed

text \<open>
  Claim C4, as the code has it.  The id of a cluster is a function of the list of its
  members in the order of the clustering, not of their sorted ids: in
  \<^verbatim>\<open>MarkerManager.createClusters\<close> the member ids joined by underscores after
  \<^verbatim>\<open>cluster_\<close>, in \<^verbatim>\<open>PhotoMapApp.createPhotoClusters\<close> the id of the seed after
  \<^verbatim>\<open>cluster_\<close>; a single area keeps its own id.  So two renders, whatever their zoom,
  photos and areas, give the same id to clusters with the same list of members.
\<close>

theorem C4_cluster_id_from_member_order:
  "(\<forall>c\<in>set (MM_createClusters zoom photos areas).
      cluster_ident c =
        (if isCluster c then ''cluster_'' @ join ''_'' (map area_id (members c))
         else area_id (members c ! 0))) \<and>
   (\<forall>c\<in>set (PMA_createPhotoClusters photos areas).
      cluster_ident c =
        (if isCluster c then ''cluster_'' @ area_id (members c ! 0)
         else area_id (members c ! 0))) \<and>
   (\<forall>c\<in>set (MM_createClusters zoom photos areas).
      \<forall>c'\<in>set (MM_createClusters zoom' photos' areas').
        members c = members c' \<longrightarrow> cluster_ident c = cluster_ident c') \<and>
   (\<forall>c\<in>set (PMA_createPhotoClusters photos areas).
      \<forall>c'\<in>set (PMA_createPhotoClusters photos' areas').
        members c = members c' \<longrightarrow> cluster_ident c = cluster_ident c')"
proof (intro conjI ballI impI)
  fix c
  assume "c \<in> set (MM_createClusters zoom photos areas)"
  then show "cluster_ident c =
        (if isCluster c then ''cluster_'' @ join ''_'' (map area_id (members c))
         else area_id (members c ! 0))" by (rule MM_cluster_ident)
next
  fix c
  assume "c \<in> set (PMA_createPhotoClusters photos areas)"
  then show "cluster_ident c =
        (if isCluster c then ''cluster_'' @ area_id (members c ! 0)
         else area_id (members c ! 0))" by (rule PMA_cluster_ident)
next
  fix c c'
  assume c: "c \<in> set (MM_createClusters zoom photos areas)"
    and c': "c' \<in> set (MM_createClusters zoom' photos' areas')"
    and m: "members c = members c'"
  from MM_isCluster_members [OF c] MM_isCluster_members [OF c'] m
  have "isCluster c = isCluster c'" by simp
  with MM_cluster_ident [OF c] MM_cluster_ident [OF c'] m
  show "cluster_ident c = cluster_ident c'" by simp
next
  fix c c'
  assume c: "c \<in> set (PMA_createPhotoClusters photos areas)"
    and c': "c' \<in> set (PMA_createPhotoClusters photos' areas')"
    and m: "members c = members c'"
  from PMA_isCluster_members [OF c] PMA_isCluster_members [OF c'] m
  have "isCluster c = isCluster c'" by simp
  with PMA_cluster_ident [OF c] PMA_cluster_ident [OF c'] m
  show "cluster_ident c = cluster_ident c'" by simp
qed

text \<open>The two coincident areas form the cluster \<^verbatim>\<open>cluster_a1_a2\<close> at zoom 10 and at
  zoom 11.\<close>

theorem C4_cluster_id_from_member_order_witness:
  "map cluster_ident (MM_createClusters 10 [photo_p1] [area_a1, area_a2]) = [''cluster_a1_a2''] \<and>
   map members (MM_createClusters 10 [photo_p1] [area_a1, area_a2]) =
   map members (MM_createClusters 11 [photo_p1] [area_a1, area_a2]) \<and>
   map cluster_ident (MM_createClusters 10 [photo_p1] [area_a1, area_a2]) =
   map cluster_ident (MM_createClusters 11 [photo_p1] [area_a1, area_a2])"
proof -
  let ?c = "Multi \<lparr>cluster_id = ''cluster_a1_a2'',
             cluster_name = ''A1 '' @ area_word,
             cluster_center_lat = Some 34.85,
             cluster_center_lng = Some 134.6,
             cluster_areas = [area_a1, area_a2],
             cluster_photos = [photo_p1, photo_p1]\<rparr>"
  note C4 = C4_cluster_id_from_member_order [of 10 "[photo_p1]" "[area_a1, area_a2]" 11 "[photo_p1]" "[area_a1, area_a2]"]
  have mem: "?c \<in> set (MM_createClusters 10 [photo_p1] [area_a1, area_a2])"
    by (simp add: MM_clusters_a1_a2)
  have mem': "?c \<in> set (MM_createClusters 11 [photo_p1] [area_a1, area_a2])"
    by (simp add: MM_clusters_a1_a2_zoom11)
  from C4 mem
  have "cluster_ident ?c =
        (if isCluster ?c then ''cluster_'' @ join ''_'' (map area_id (members ?c))
         else area_id (members ?c ! 0))" by blast
  then have 1: "cluster_ident ?c = ''cluster_a1_a2''" by (simp add: test_fields)
  from C4 mem mem' have 2: "members ?c = members ?c \<longrightarrow> cluster_ident ?c = cluster_ident ?c"
    by blast
  from 1 2 show ?thesis by (simp add: MM_clusters_a1_a2 MM_clusters_a1_a2_zoom11)
qed

text \<open>
  Claim C4 as stated fails: the same two areas in the other input order form a cluster
  with the same set of members and another id, in both implementations.
\<close>

theorem C4_id_depends_on_order_counterexample:
  "map (\<lambda>c. set (members c)) (MM_createClusters 10 [photo_p1] [area_a1, area_a2]) =
   map (\<lambda>c. set (members c)) (MM_createClusters 10 [photo_p1] [area_a2, area_a1]) \<and>
   map cluster_ident (MM_createClusters 10 [photo_p1] [area_a1, area_a2]) = [''cluster_a1_a2''] \<and>
   map cluster_ident (MM_createClusters 10 [photo_p1] [area_a2, area_a1]) = [''cluster_a2_a1''] \<and>
   map (\<lambda>c. set (members c)) (PMA_createPhotoClusters [photo_p1] [area_a1, area_a2]) =
   map (\<lambda>c. set (members c)) (PMA_createPhotoClusters [photo_p1] [area_a2, area_a1]) \<and>
   map cluster_ident (PMA_createPhotoClusters [photo_p1] [area_a1, area_a2]) = [''cluster_a1''] \<and>
   map cluster_ident (PMA_createPhotoClusters [photo_p1] [area_a2, area_a1]) = [''cluster_a2'']"
proof -
  have "map (\<lambda>c. set (members c)) (PMA_createPhotoClusters [photo_p1] [area_a1, area_a2]) =
        map (set \<circ> (\<lambda>(i, ms, la, lo). ms))
          (map (\<lambda>c. (cluster_ident c, members c, cluster_lat c, cluster_lng c))
             (PMA_createPhotoClusters [photo_p1] [area_a1, area_a2]))"
    by (simp add: o_def)
  then have p1: "map (\<lambda>c. set (members c)) (PMA_createPhotoClusters [photo_p1] [area_a1, area_a2]) =
        [{area_a1, area_a2}]"
    by (simp only: PMA_clusters_a1_a2) simp
  have "map (\<lambda>c. set (members c)) (PMA_createPhotoClusters [photo_p1] [area_a2, area_a1]) =
        map (set \<circ> (\<lambda>(i, ms, la, lo). ms))
          (map (\<lambda>c. (cluster_ident c, members c, cluster_lat c, cluster_lng c))
             (PMA_createPhotoClusters [photo_p1] [area_a2, area_a1]))"
    by (simp add: o_def)
  then have p2: "map (\<lambda>c. set (members c)) (PMA_createPhotoClusters [photo_p1] [area_a2, area_a1]) =
        [{area_a1, area_a2}]"
    by (simp only: PMA_clusters_a2_a1) (simp add: insert_commute)
  have "map cluster_ident (PMA_createPhotoClusters [photo_p1] [area_a1, area_a2]) =
        map (\<lambda>(i, ms, la, lo). i)
          (map (\<lambda>c. (cluster_ident c, members c, cluster_lat c, cluster_lng c))
             (PMA_createPhotoClusters [photo_p1] [area_a1, area_a2]))"
    by (simp add: o_def)
  then have i1: "map cluster_ident (PMA_createPhotoClusters [photo_p1] [area_a1, area_a2]) = [''cluster_a1'']"
    by (simp only: PMA_clusters_a1_a2) simp
  have "map cluster_ident (PMA_createPhotoClusters [photo_p1] [area_a2, area_a1]) =
        map (\<lambda>(i, ms, la, lo). i)
          (map (\<lambda>c. (cluster_ident c, members c, cluster_lat c, cluster_lng c))
             (PMA_createPhotoClusters [photo_p1] [area_a2, area_a1]))"
    by (simp add: o_def)
  then have i2: "map cluster_ident (PMA_createPhotoClusters [photo_p1] [area_a2, area_a1]) = [''cluster_a2'']"
    by (simp only: PMA_clusters_a2_a1) simp
  show ?thesis
    unfolding p1 p2 i1 i2 by (simp add: MM_clusters_a1_a2 MM_clusters_a2_a1 insert_commute)
qed

section \<open>Areas without radius or with unusable coordinates\<close>

text \<open>
  Claim C7, as the code has it.  For an area whose radius is absent or zero,
  \<^verbatim>\<open>PhotoMapApp.getPhotosInArea\<close> returns no photo, and at no zoom does
  \<^verbatim>\<open>PhotoMapApp.addAreaMarkers\<close> create a marker for the area by itself;
  \<^verbatim>\<open>DataManager.getPhotosInArea\<close> instead treats it as an area of radius 1 km.
  The area is not kept out of the groups of the clustering.
\<close>

theorem C7_falsy_radius:
  "radius area = None \<or> radius area = Some 0 \<Longrightarrow>
     PMA_getPhotosInArea photos area = [] \<and>
     PMA_addMarker zoom photos areaLayer (Single area None) = areaLayer \<and>
     (\<forall>m\<in>set (PMA_addAreaMarkers zoom photos areas). \<forall>ps. areaData m \<noteq> Single area ps) \<and>
     DM_getPhotosInArea photos area = DM_getPhotosInArea photos (area\<lparr>radius := Some 1\<rparr>)"
proof -
  assume r: "radius area = None \<or> radius area = Some 0"
  then have e: "PMA_getPhotosInArea photos area = []"
    by (auto simp: PMA_getPhotosInArea_def truthy_def)
  have 2: "PMA_addMarker zoom photos areaLayer (Single area None) = areaLayer"
    using e by (simp add: PMA_addMarker_def Let_def)
  have 3: "\<forall>m\<in>set (PMA_addAreaMarkers zoom photos areas). \<forall>ps. areaData m \<noteq> Single area ps"
    using PMA_single_marker_has_photos [of _ zoom photos areas area] e by blast
  have 4: "DM_getPhotosInArea photos area = DM_getPhotosInArea photos (area\<lparr>radius := Some 1\<rparr>)"
    using r by (auto simp: DM_getPhotosInArea_def truthy_def Let_def)
  from e 2 3 4 show ?thesis by simp
qed

text \<open>\<open>area_norad\<close> gets no marker at zoom 14, and no marker of its own at zoom 10 next
  to \<open>area_a1\<close>.\<close>

theorem C7_falsy_radius_witness:
  "radius area_norad = None \<and> PMA_getPhotosInArea [photo_p1] area_norad = [] \<and>
   PMA_addAreaMarkers 14 [photo_p1] [area_norad] = [] \<and>
   Single area_norad None \<notin> areaData ` set (PMA_addAreaMarkers 10 [photo_p1] [area_norad, area_a1])"
proof -
  have r: "radius area_norad = None" by (simp add: area_norad_def)
  then have h: "radius area_norad = None \<or> radius area_norad = Some 0" by simp
  from C7_falsy_radius [OF h, of "[photo_p1]" 14 "[]" "[area_norad]"] r
  have 1: "radius area_norad = None \<and> PMA_getPhotosInArea [photo_p1] area_norad = [] \<and>
   PMA_addAreaMarkers 14 [photo_p1] [area_norad] = []"
    by (simp add: PMA_addAreaMarkers_def PMA_shouldClusterMarkers_def)
  from C7_falsy_radius [OF h, of "[photo_p1]" 10 "[]" "[area_norad, area_a1]"]
  have "\<forall>m\<in>set (PMA_addAreaMarkers 10 [photo_p1] [area_norad, area_a1]).
      \<forall>ps. areaData m \<noteq> Single area_norad ps" by blast
  then have 2: "Single area_norad None \<notin>
      areaData ` set (PMA_addAreaMarkers 10 [photo_p1] [area_norad, area_a1])" by (metis imageE)
  from 1 2 show ?thesis by blast
qed

text \<open>
  Claim C7 as stated fails.  \<open>area_norad\<close> has no radius; with
  \<^verbatim>\<open>DataManager.getPhotosInArea\<close> the photo at its centre is found and
  \<^verbatim>\<open>MarkerManager\<close> renders the area, and in \<^verbatim>\<open>PhotoMapApp\<close> at zoom 10 it seeds the
  rendered cluster \<^verbatim>\<open>cluster_r\<close> with \<open>area_a1\<close>.
\<close>

theorem C7_default_radius_counterexample:
  "radius area_norad = None \<and> DM_getPhotosInArea [photo_p1] area_norad = [photo_p1] \<and>
   map (\<lambda>m. (areaData m, photoCount m)) (MM_addAreaMarkers 14 [photo_p1] [area_norad]) =
     [(Single area_norad None, 1)] \<and>
   map (\<lambda>m. (cluster_ident (areaData m), members (areaData m), photoCount m))
     (PMA_addAreaMarkers 10 [photo_p1] [area_norad, area_a1]) =
     [(''cluster_r'', [area_norad, area_a1], 1)]"
proof -
  have p: "DM_getPhotosInArea [photo_p1] area_norad = [photo_p1]"
    by (simp add: DM_getPhotosInArea_def area_norad_def photo_p1_def truthy_def
        DM_distance_same_point js_le_def)
  have a: "is_active area_norad \<noteq> Some False" "radius area_norad = None"
    by (simp_all add: area_norad_def)
  have "\<not> shouldClusterMarkers 14" by (simp add: shouldClusterMarkers_def CLUSTER_ZOOM_THRESHOLD_def)
  from MM_unclustered [OF this, of "[photo_p1]" "[area_norad]"] p a
  have "map (\<lambda>m. (areaData m, photoCount m)) (MM_addAreaMarkers 14 [photo_p1] [area_norad]) =
     [(Single area_norad None, 1)]" by simp
  with p a PMA_markers_norad_a1 show ?thesis by simp
qed

text \<open>
  Claim C9: when an area of the input has no latitude or no longitude, the render pass
  of \<^verbatim>\<open>MarkerManager\<close> creates exactly the markers it creates for the input without
  that area, and no marker stands for an area without coordinates.  The model of the
  pass is a total function: the code on this path has no statement that throws, the
  invalid area only makes distances NaN and comparisons false.
\<close>

theorem C9_invalid_area_skipped:
  "center_lat x = None \<or> center_lng x = None \<Longrightarrow>
     MM_addAreaMarkers zoom photos (xs @ x # ys) = MM_addAreaMarkers zoom photos (xs @ ys) \<and>
     (\<forall>m\<in>set (MM_addAreaMarkers zoom photos (xs @ x # ys)).
        \<forall>a\<in>set (members (areaData m)). center_lat a \<noteq> None \<and> center_lng a \<noteq> None)"
proof -
  assume inv: "center_lat x = None \<or> center_lng x = None"
  have same: "MM_addAreaMarkers zoom photos (xs @ x # ys) = MM_addAreaMarkers zoom photos (xs @ ys)"
  proof (cases "shouldClusterMarkers zoom")
    case True
    then show ?thesis
      by (simp add: MM_addAreaMarkers_concat MM_createClusters_greedy greedy_skip_invalid [OF inv])
  next
    case False
    then show ?thesis using invalid_no_photos [OF inv, of photos]
      by (simp add: MM_unclustered)
  qed
  have valid: "\<forall>m\<in>set (MM_addAreaMarkers zoom photos areas).
        \<forall>a\<in>set (members (areaData m)). center_lat a \<noteq> None \<and> center_lng a \<noteq> None" for areas
  proof (intro ballI)
    fix m a
    assume m: "m \<in> set (MM_addAreaMarkers zoom photos areas)" and a: "a \<in> set (members (areaData m))"
    from MM_addAreaMarkers_mem [OF m] have c: "areaData m \<in> set (MM_createClusters zoom photos areas)"
      and r: "m \<in> set (MM_addMarker zoom photos [] (areaData m))" by simp_all
    show "center_lat a \<noteq> None \<and> center_lng a \<noteq> None"
    proof (cases "areaData m")
      case (Single b ps)
      with a have "a = b" by simp
      with MM_addMarker_mem [OF r] Single show ?thesis using truthy_Some by auto
    next
      case (Multi g)
      with c have "MM_cluster_ok photos g" using MM_createClusters_Multi by simp
      then obtain lats lngs where "map center_lat (cluster_areas g) = map Some lats"
        "map center_lng (cluster_areas g) = map Some lngs"
        unfolding MM_cluster_ok_def by blast
      moreover from a Multi have "a \<in> set (cluster_areas g)" by simp
      ultimately have "center_lat a \<in> set (map Some lats)" "center_lng a \<in> set (map Some lngs)"
        by (metis image_eqI set_map)+
      then show ?thesis by auto
    qed
  qed
  from same valid show ?thesis by blast
qed


theorem C9_invalid_area_skipped_witness:
  "center_lat area_nolat = None \<and>
   MM_addAreaMarkers 10 [photo_p1] [area_a1, area_nolat, area_a2] =
     MM_addAreaMarkers 10 [photo_p1] [area_a1, area_a2] \<and>
   map (\<lambda>m. (members (areaData m), photoCount m))
     (MM_addAreaMarkers 10 [photo_p1] [area_a1, area_nolat, area_a2]) = [([area_a1, area_a2], 2)]"
proof -
  have n: "center_lat area_nolat = None" by (simp add: area_nolat_def)
  then have "center_lat area_nolat = None \<or> center_lng area_nolat = None" by simp
  from C9_invalid_area_skipped [OF this, of 10 "[photo_p1]" "[area_a1]" "[area_a2]"] n
  show ?thesis by (simp add: MM_markers_a1_a2)
qed


text \<open>
  Claim C10, as the code has it.  An area whose latitude or longitude is exactly 0 fails
  the truthiness guards like an area without that coordinate: both
  \<^verbatim>\<open>getPhotosInArea\<close> return no photo, \<^verbatim>\<open>createAreaMarker\<close> returns early, and at
  no zoom does either render pass create a marker for the area by itself.  In the
  distance test of the clustering the coordinate counts as the number 0, so there the
  area is not treated like one without the coordinate, which is within cluster distance
  of no area.
\<close>

theorem C10_zero_coordinate:
  "center_lat area = Some 0 \<or> center_lng area = Some 0 \<Longrightarrow>
     DM_getPhotosInArea photos area = [] \<and>
     PMA_getPhotosInArea photos area = [] \<and>
     MM_createAreaMarker zoom (Single area ps) n = None \<and>
     MM_addMarker zoom photos areaLayer (Single area ps) = areaLayer \<and>
     PMA_addMarker zoom photos areaLayer (Single area ps) = areaLayer \<and>
     (\<forall>m\<in>set (MM_addAreaMarkers zoom photos areas). \<forall>qs. areaData m \<noteq> Single area qs) \<and>
     (\<forall>m\<in>set (PMA_addAreaMarkers zoom photos areas). \<forall>qs. areaData m \<noteq> Single area qs) \<and>
     DM_getPhotosInArea photos (area\<lparr>center_lat := None\<rparr>) = [] \<and>
     PMA_getPhotosInArea photos (area\<lparr>center_lat := None\<rparr>) = [] \<and>
     MM_createAreaMarker zoom (Single (area\<lparr>center_lat := None\<rparr>) ps) n = None \<and>
     DM_getPhotosInArea photos (area\<lparr>center_lng := None\<rparr>) = [] \<and>
     PMA_getPhotosInArea photos (area\<lparr>center_lng := None\<rparr>) = [] \<and>
     MM_createAreaMarker zoom (Single (area\<lparr>center_lng := None\<rparr>) ps) n = None \<and>
     (\<forall>b. \<not> withinClusterDistance (area\<lparr>center_lat := None\<rparr>) b \<and>
          \<not> withinClusterDistance b (area\<lparr>center_lat := None\<rparr>)) \<and>
     (\<forall>b. \<not> withinClusterDistance (area\<lparr>center_lng := None\<rparr>) b \<and>
          \<not> withinClusterDistance b (area\<lparr>center_lng := None\<rparr>))"
proof -
  assume z: "center_lat area = Some 0 \<or> center_lng area = Some 0"
  then have d: "DM_getPhotosInArea photos area = []" and p: "PMA_getPhotosInArea photos area = []"
    by (auto simp: DM_getPhotosInArea_def PMA_getPhotosInArea_def truthy_def)
  have a: "\<forall>m\<in>set (MM_addAreaMarkers zoom photos areas). \<forall>qs. areaData m \<noteq> Single area qs"
    using MM_single_marker_has_photos [of _ zoom photos areas area] d by blast
  have b: "\<forall>m\<in>set (PMA_addAreaMarkers zoom photos areas). \<forall>qs. areaData m \<noteq> Single area qs"
    using PMA_single_marker_has_photos [of _ zoom photos areas area] p by blast
  have rest: "MM_createAreaMarker zoom (Single area ps) n = None \<and>
     MM_addMarker zoom photos areaLayer (Single area ps) = areaLayer \<and>
     PMA_addMarker zoom photos areaLayer (Single area ps) = areaLayer \<and>
     DM_getPhotosInArea photos (area\<lparr>center_lat := None\<rparr>) = [] \<and>
     PMA_getPhotosInArea photos (area\<lparr>center_lat := None\<rparr>) = [] \<and>
     MM_createAreaMarker zoom (Single (area\<lparr>center_lat := None\<rparr>) ps) n = None \<and>
     DM_getPhotosInArea photos (area\<lparr>center_lng := None\<rparr>) = [] \<and>
     PMA_getPhotosInArea photos (area\<lparr>center_lng := None\<rparr>) = [] \<and>
     MM_createAreaMarker zoom (Single (area\<lparr>center_lng := None\<rparr>) ps) n = None"
    using z by (auto simp: DM_getPhotosInArea_def PMA_getPhotosInArea_def MM_createAreaMarker_def
      MM_addMarker_def PMA_addMarker_def truthy_def Let_def)
  have nolat: "\<forall>b. \<not> withinClusterDistance (area\<lparr>center_lat := None\<rparr>) b \<and>
          \<not> withinClusterDistance b (area\<lparr>center_lat := None\<rparr>)"
    using invalid_not_within [of "area\<lparr>center_lat := None\<rparr>"] by simp
  have nolng: "\<forall>b. \<not> withinClusterDistance (area\<lparr>center_lng := None\<rparr>) b \<and>
          \<not> withinClusterDistance b (area\<lparr>center_lng := None\<rparr>)"
    using invalid_not_within [of "area\<lparr>center_lng := None\<rparr>"] by simp
  from d p a b rest nolat nolng show ?thesis by simp
qed

text \<open>\<open>area_equator\<close> gets no marker at zoom 14, and no marker of its own at zoom 10 next
  to \<open>area_f\<close>.\<close>

theorem C10_zero_coordinate_witness:
  "center_lat area_equator = Some 0 \<and>
   DM_getPhotosInArea [photo_p1] area_equator = [] \<and>
   PMA_getPhotosInArea [photo_p1] area_equator = [] \<and>
   MM_createAreaMarker 14 (Single area_equator None) 1 = None \<and>
   MM_addAreaMarkers 14 [photo_p1] [area_equator] = [] \<and>
   PMA_addAreaMarkers 14 [photo_p1] [area_equator] = [] \<and>
   Single area_equator None \<notin> areaData ` set (MM_addAreaMarkers 10 [photo_f] [area_equator, area_f])"
proof -
  have e: "center_lat area_equator = Some 0" by (simp add: area_equator_def)
  then have h: "center_lat area_equator = Some 0 \<or> center_lng area_equator = Some 0" by simp
  from C10_zero_coordinate [OF h, of "[photo_p1]" 14 None 1 "[]" "[area_equator]"] e
  have 1: "center_lat area_equator = Some 0 \<and>
   DM_getPhotosInArea [photo_p1] area_equator = [] \<and>
   PMA_getPhotosInArea [photo_p1] area_equator = [] \<and>
   MM_createAreaMarker 14 (Single area_equator None) 1 = None \<and>
   MM_addAreaMarkers 14 [photo_p1] [area_equator] = [] \<and>
   PMA_addAreaMarkers 14 [photo_p1] [area_equator] = []"
    by (simp add: MM_addAreaMarkers_def MM_createClusters_def shouldClusterMarkers_def
        CLUSTER_ZOOM_THRESHOLD_def PMA_addAreaMarkers_def PMA_shouldClusterMarkers_def)
  from C10_zero_coordinate [OF h, of "[photo_f]" 10 None 1 "[]" "[area_equator, area_f]"]
  have "\<forall>m\<in>set (MM_addAreaMarkers 10 [photo_f] [area_equator, area_f]).
      \<forall>qs. areaData m \<noteq> Single area_equator qs" by blast
  then have 2: "Single area_equator None \<notin>
      areaData ` set (MM_addAreaMarkers 10 [photo_f] [area_equator, area_f])" by (metis imageE)
  from 1 2 show ?thesis by blast
qed

text \<open>
  Claim C10 as stated fails under clustering: at zoom 10 \<open>area_equator\<close>, 1.1 km from
  \<open>area_f\<close>, seeds the rendered cluster \<^verbatim>\<open>cluster_e_f\<close> and moves its marker to
  latitude 0.005, whereas the same area without latitude leaves \<open>area_f\<close> with a marker
  of its own.
\<close>

theorem C10_zero_coordinate_clustered_counterexample:
  "center_lat area_equator = Some 0 \<and>
   map (\<lambda>m. (cluster_ident (areaData m), members (areaData m), cluster_lat (areaData m)))
     (MM_addAreaMarkers 10 [photo_f] [area_equator, area_f]) =
     [(''cluster_e_f'', [area_equator, area_f], Some 0.005)] \<and>
   map (\<lambda>m. (cluster_ident (areaData m), members (areaData m), cluster_lat (areaData m)))
     (MM_addAreaMarkers 10 [photo_f] [area_equator\<lparr>center_lat := None\<rparr>, area_f]) =
     [(''f'', [area_f], Some 0.01)]"
  using MM_markers_equator_f MM_markers_nolat_f by (simp add: more_test_fields)

end
